theory Spec2Isabelle
  imports Complex_Main "HOL-Library.Log_Nat"
begin

section \<open>Conventions\<close>

text \<open>
  The game is JavaScript. Its numbers are modelled as \<^typ>\<open>real\<close> in exact arithmetic;
  the rounding of binary64 is written out in the section on the speed ramp, the one
  property below that it decides. Integers that the code obtains with \<open>Math.floor\<close>
  or uses as array indices are \<^typ>\<open>int\<close> or \<^typ>\<open>nat\<close>. Every call of
  \<open>Math.random()\<close> is an argument of the model. The physics engine, the scene graph
  and the DOM are outside the repository: what the code writes to the player's body is
  kept in a log, what it reads from the engine is an input of the tick, and rendering
  is left out. An exception that leaves a method is the \<open>Inl\<close> branch of a sum type.
\<close>

datatype js_error = TypeError

section \<open>Terrain streamer (class Terrain)\<close>

datatype material = Snow | Ice

text \<open>
  A chunk is the mesh returned by \<open>generateChunk\<close>; the mesh sits at
  \<open>z = -chunkIndex * chunkSize\<close>, so the index identifies it. Its vertex heights are
  not part of the model.
\<close>

record chunk =
  chunkIndex :: int
  chunkMaterial :: material

record terrain =
  chunkSize :: real
  visibleChunks :: nat
  currentChunkIndex :: int
  terrainChunks :: "chunk list"
  terrainBodies :: "int list"

text \<open>\<open>const iceFactor = Math.min(0.8, chunkIndex * 0.1)\<close>\<close>

definition iceFactor :: "int \<Rightarrow> real" where
  "iceFactor idx = min (8 / 10) (real_of_int idx * (1 / 10))"

text \<open>
  \<open>addTerrainPhysics\<close>: the body is built inside \<open>try\<close>; when the engine throws
  (\<open>ok = False\<close>) the error is logged and no body is stored.
\<close>

definition addTerrainPhysics :: "bool \<Rightarrow> int \<Rightarrow> terrain \<Rightarrow> terrain" where
  "addTerrainPhysics ok idx t =
     (if ok then t\<lparr>terrainBodies := terrainBodies t @ [idx]\<rparr> else t)"

text \<open>
  \<open>generateChunk(chunkIndex)\<close>: \<open>r\<close> is the value of \<open>Math.random()\<close> that picks the
  material.
\<close>

definition generateChunk :: "real \<Rightarrow> bool \<Rightarrow> int \<Rightarrow> terrain \<Rightarrow> chunk \<times> terrain" where
  "generateChunk r ok idx t =
     (let mat = (if r < iceFactor idx then Ice else Snow)
      in (\<lparr>chunkIndex = idx, chunkMaterial = mat\<rparr>, addTerrainPhysics ok idx t))"

text \<open>The loop of \<open>generateInitialChunks\<close>, from \<open>i\<close> up to \<open>visibleChunks\<close>.\<close>

function generateInitialChunks_loop ::
  "(nat \<Rightarrow> real) \<Rightarrow> (nat \<Rightarrow> bool) \<Rightarrow> nat \<Rightarrow> terrain \<Rightarrow> terrain" where
  "generateInitialChunks_loop rs oks i t =
     (if i < visibleChunks t
      then (case generateChunk (rs i) (oks i) (int i) t of
              (c, t') \<Rightarrow> generateInitialChunks_loop rs oks (Suc i)
                           (t'\<lparr>terrainChunks := terrainChunks t' @ [c]\<rparr>))
      else t)"
  by pat_completeness auto
termination
  by (relation "measure (\<lambda>(rs, oks, i, t). visibleChunks t - i)")
     (auto simp: generateChunk_def addTerrainPhysics_def Let_def split: if_splits)

declare generateInitialChunks_loop.simps [simp del]

definition generateInitialChunks :: "(nat \<Rightarrow> real) \<Rightarrow> (nat \<Rightarrow> bool) \<Rightarrow> terrain \<Rightarrow> terrain" where
  "generateInitialChunks rs oks t = generateInitialChunks_loop rs oks 0 t"

text \<open>The constructor.\<close>

definition Terrain_new :: "(nat \<Rightarrow> real) \<Rightarrow> (nat \<Rightarrow> bool) \<Rightarrow> terrain" where
  "Terrain_new rs oks =
     generateInitialChunks rs oks
       \<lparr>chunkSize = 500, visibleChunks = 5, currentChunkIndex = 0,
        terrainChunks = [], terrainBodies = []\<rparr>"

definition generateNextChunk :: "real \<Rightarrow> bool \<Rightarrow> terrain \<Rightarrow> terrain" where
  "generateNextChunk r ok t =
     (let newChunkIndex = currentChunkIndex t + int (length (terrainChunks t))
      in case generateChunk r ok newChunkIndex t of
           (newChunk, t') \<Rightarrow> t'\<lparr>terrainChunks := terrainChunks t' @ [newChunk]\<rparr>)"

text \<open>
  \<open>removeOldestChunk\<close>: \<open>shift()\<close> on both arrays. When \<open>terrainBodies\<close> is empty,
  \<open>oldestBody\<close> is \<open>undefined\<close> and reading \<open>oldestBody.body\<close> throws, after the
  chunk has been removed and before the index is incremented.
\<close>

definition removeOldestChunk :: "terrain \<Rightarrow> js_error + terrain" where
  "removeOldestChunk t =
     (let t1 = t\<lparr>terrainChunks := tl (terrainChunks t)\<rparr>
      in case terrainBodies t1 of
           [] \<Rightarrow> Inl TypeError
         | b # bs \<Rightarrow> Inr (t1\<lparr>terrainBodies := bs,
                             currentChunkIndex := currentChunkIndex t1 + 1\<rparr>))"

text \<open>\<open>update(playerPosition)\<close>; \<open>z\<close> is \<open>playerPosition.z\<close>.\<close>

definition playerChunkIndex :: "terrain \<Rightarrow> real \<Rightarrow> int" where
  "playerChunkIndex t z = \<lfloor>- z / chunkSize t\<rfloor>"

definition Terrain_update :: "real \<Rightarrow> real \<Rightarrow> bool \<Rightarrow> terrain \<Rightarrow> js_error + terrain" where
  "Terrain_update z r ok t =
     (let pci = playerChunkIndex t z;
          t1 = (if pci + 3 \<ge> currentChunkIndex t + int (length (terrainChunks t))
                then generateNextChunk r ok t else t)
      in if length (terrainChunks t1) > visibleChunks t1 \<and> pci > currentChunkIndex t1 + 2
         then removeOldestChunk t1
         else Inr t1)"

text \<open>
  A run of ticks: each tick supplies the player's \<open>z\<close>, the random number and whether
  the engine accepts the height field. An exception stops the frame loop.
\<close>

fun Terrain_ticks :: "(real \<times> real \<times> bool) list \<Rightarrow> terrain \<Rightarrow> js_error + terrain" where
  "Terrain_ticks [] t = Inr t"
| "Terrain_ticks ((z, r, ok) # ins) t =
     (case Terrain_update z r ok t of Inl e \<Rightarrow> Inl e | Inr t' \<Rightarrow> Terrain_ticks ins t')"


section \<open>Noise generator (class ImprovedNoise, generateNoise)\<close>

text \<open>
  A JavaScript division yields a number, \<open>NaN\<close> or an infinity, and never throws.
  \<open>js_div\<close> is \<open>a / b\<close> for a divisor that is a positive zero when it is zero.
\<close>

datatype js_num = Num real | NaN | PosInfinity | NegInfinity

definition js_div :: "real \<Rightarrow> real \<Rightarrow> js_num" where
  "js_div a b =
     (if b \<noteq> 0 then Num (a / b)
      else if a = 0 then NaN
      else if 0 < a then PosInfinity else NegInfinity)"

definition permutation :: "nat list" where
  "permutation =
    [
     151, 160, 137, 91, 90, 15, 131, 13, 201, 95, 96, 53, 194, 233, 7, 225,
     140, 36, 103, 30, 69, 142, 8, 99, 37, 240, 21, 10, 23, 190, 6, 148,
     247, 120, 234, 75, 0, 26, 197, 62, 94, 252, 219, 203, 117, 35, 11, 32,
     57, 177, 33, 88, 237, 149, 56, 87, 174, 20, 125, 136, 171, 168, 68, 175,
     74, 165, 71, 134, 139, 48, 27, 166, 77, 146, 158, 231, 83, 111, 229, 122,
     60, 211, 133, 230, 220, 105, 92, 41, 55, 46, 245, 40, 244, 102, 143, 54,
     65, 25, 63, 161, 1, 216, 80, 73, 209, 76, 132, 187, 208, 89, 18, 169,
     200, 196, 135, 130, 116, 188, 159, 86, 164, 100, 109, 198, 173, 186, 3, 64,
     52, 217, 226, 250, 124, 123, 5, 202, 38, 147, 118, 126, 255, 82, 85, 212,
     207, 206, 59, 227, 47, 16, 58, 17, 182, 189, 28, 42, 223, 183, 170, 213,
     119, 248, 152, 2, 44, 154, 163, 70, 221, 153, 101, 155, 167, 43, 172, 9,
     129, 22, 39, 253, 19, 98, 108, 110, 79, 113, 224, 232, 178, 185, 112, 104,
     218, 246, 97, 228, 251, 34, 242, 193, 238, 210, 144, 12, 191, 179, 162, 241,
     81, 51, 145, 235, 249, 14, 239, 107, 49, 192, 214, 31, 181, 199, 106, 157,
     184, 84, 204, 176, 115, 121, 50, 45, 127, 4, 150, 254, 138, 236, 205, 93,
     222, 114, 67, 29, 24, 72, 243, 141, 128, 195, 78, 66, 215, 61, 156, 180
    ]"

text \<open>
  \<open>this.p[i] = this.p[i + 256] = this.permutation[i]\<close> for \<open>i < 256\<close>: a
  \<open>Uint8Array(512)\<close>. The indices that \<open>noise\<close> computes stay below 512.
\<close>

definition p :: "nat \<Rightarrow> nat" where
  "p i = permutation ! (i mod 256)"

definition fade :: "real \<Rightarrow> real" where
  "fade t = t * t * t * (t * (t * 6 - 15) + 10)"

definition lerp :: "real \<Rightarrow> real \<Rightarrow> real \<Rightarrow> real" where
  "lerp a b t = a + t * (b - a)"

text \<open>\<open>hash & 15\<close>, \<open>(h & 1) == 0\<close> and \<open>(h & 2) == 0\<close> on a non-negative integer.\<close>

definition grad :: "nat \<Rightarrow> real \<Rightarrow> real \<Rightarrow> real \<Rightarrow> real" where
  "grad hash x y z =
     (let h = hash mod 16;
          u = (if h < 8 then x else y);
          v = (if h < 4 then y else if h = 12 \<or> h = 14 then x else z)
      in (if h mod 2 = 0 then u else - u) + (if (h div 2) mod 2 = 0 then v else - v))"

text \<open>
  \<open>Math.floor(x) & 255\<close> is the floor reduced modulo 256 (also for a negative floor,
  through the two's complement of \<open>ToInt32\<close>).
\<close>

definition cell :: "real \<Rightarrow> nat" where
  "cell x = nat (\<lfloor>x\<rfloor> mod 256)"

definition noise :: "real \<Rightarrow> real \<Rightarrow> real \<Rightarrow> real" where
  "noise x0 y0 z0 =
     (let X = cell x0; Y = cell y0; Z = cell z0;
          x = x0 - of_int \<lfloor>x0\<rfloor>; y = y0 - of_int \<lfloor>y0\<rfloor>; z = z0 - of_int \<lfloor>z0\<rfloor>;
          u = fade x; v = fade y; w = fade z;
          A = p X + Y; AA = p A + Z; AB = p (A + 1) + Z;
          B = p (X + 1) + Y; BA = p B + Z; BB = p (B + 1) + Z
      in lerp
           (lerp
              (lerp (grad (p AA) x y z) (grad (p BA) (x - 1) y z) u)
              (lerp (grad (p AB) x (y - 1) z) (grad (p BB) (x - 1) (y - 1) z) u)
              v)
           (lerp
              (lerp (grad (p (AA + 1)) x y (z - 1)) (grad (p (BA + 1)) (x - 1) y (z - 1)) u)
              (lerp (grad (p (AB + 1)) x (y - 1) (z - 1))
                    (grad (p (BB + 1)) (x - 1) (y - 1) (z - 1)) u)
              v)
           w)"

text \<open>
  The loop of \<open>generateNoise\<close> from \<open>i\<close> on, over
  the variables
  \<open>total\<close>, \<open>frequency\<close>, \<open>amplitude\<close> and \<open>maxValue\<close>; it returns \<open>total\<close> and \<open>maxValue\<close>.
\<close>

function generateNoise_loop ::
  "real \<Rightarrow> real \<Rightarrow> int \<Rightarrow> real \<Rightarrow> real \<Rightarrow> real \<Rightarrow> int \<Rightarrow>
   real \<times> real \<times> real \<times> real \<Rightarrow> real \<times> real" where
  "generateNoise_loop x y octaves persistence lacunarity scale i
       (tot, frequency, amplitude, maxValue) =
     (if i < octaves
      then generateNoise_loop x y octaves persistence lacunarity scale (i + 1)
             (tot + noise (x * frequency / scale) (y * frequency / scale) 0 * amplitude,
              frequency * lacunarity,
              amplitude * persistence,
              maxValue + amplitude)
      else (tot, maxValue))"
  by pat_completeness auto
termination
  by (relation "measure (\<lambda>(x, y, octaves, persistence, lacunarity, scale, i, st). nat (octaves - i))")
     auto

declare generateNoise_loop.simps [simp del]

text \<open>
  \<open>generateNoise(x, y, octaves, persistence, lacunarity, scale)\<close>. The function has no
  \<open>throw\<close>: it always completes normally, which is the \<open>Inr\<close> of the result. With
  \<open>scale = 0\<close> every sample is taken at \<open>x * frequency / 0\<close>, an infinity or \<open>NaN\<close>,
  where \<open>noise\<close> computes \<open>NaN\<close> (\<open>x - Math.floor(x)\<close>), so the total is \<open>NaN\<close> as soon
  as the loop runs once.
\<close>

definition generateNoise ::
  "real \<Rightarrow> real \<Rightarrow> int \<Rightarrow> real \<Rightarrow> real \<Rightarrow> real \<Rightarrow> js_error + js_num" where
  "generateNoise x y octaves persistence lacunarity scale =
     (case generateNoise_loop x y octaves persistence lacunarity scale 0 (0, 1, 1, 0) of
        (tot, maxValue) \<Rightarrow>
          if 0 < octaves \<and> scale = 0 then Inr NaN
          else Inr (js_div tot maxValue))"


section \<open>Obstacle spawner (class ObstacleManager)\<close>

record vec3 =
  vx :: real
  vy :: real
  vz :: real

datatype obstacle_type = Tree | Rock | IceSpike | LogPile

text \<open>The table \<open>obstacleTypesData\<close> of \<open>initObstacleTypes\<close>, in its order.\<close>

definition obstacleTypesData :: "obstacle_type list" where
  "obstacleTypesData = [Tree, Rock, IceSpike, LogPile]"

fun typeCollisionRadius :: "obstacle_type \<Rightarrow> real" where
  "typeCollisionRadius Tree = 12 / 10"
| "typeCollisionRadius Rock = 18 / 10"
| "typeCollisionRadius IceSpike = 1"
| "typeCollisionRadius LogPile = 2"

fun typeDamageMultiplier :: "obstacle_type \<Rightarrow> real" where
  "typeDamageMultiplier Tree = 1"
| "typeDamageMultiplier Rock = 12 / 10"
| "typeDamageMultiplier IceSpike = 15 / 10"
| "typeDamageMultiplier LogPile = 8 / 10"

text \<open>
  An obstacle is a JavaScript object; \<open>oid\<close> is its identity, given when a
  \<open>createFunc\<close> builds the object and kept while the object moves between the active
  array and the pool. \<open>obstacleBody\<close> is the position of its static physics body,
  \<open>None\<close> for \<open>null\<close>.
\<close>

record obstacle =
  oid :: nat
  otype :: obstacle_type
  position :: vec3
  collisionRadius :: real
  damageMultiplier :: real
  isAvoidedCounted :: bool
  obstacleBody :: "vec3 option"

record obstacle_manager =
  activeObstacles :: "obstacle list"
  obstaclePool :: "obstacle list"
  minDistanceBetweenObstacles :: real
  obstacleSpawnFrequency :: real
  maxObstaclesOnScreen :: int
  obstaclesAvoided :: nat
  nextObstacleZ :: real
  lastPlayerZ :: real
  obstacleSpread :: real
  difficultyLevel :: int
  obstaclesPerLevelIncrease :: int
  nextOid :: nat

definition ObstacleManager_new :: obstacle_manager where
  "ObstacleManager_new =
     \<lparr>activeObstacles = [], obstaclePool = [],
      minDistanceBetweenObstacles = 20, obstacleSpawnFrequency = 2 / 10,
      maxObstaclesOnScreen = 20, obstaclesAvoided = 0,
      nextObstacleZ = - 100, lastPlayerZ = 0, obstacleSpread = 30,
      difficultyLevel = 1, obstaclesPerLevelIncrease = 10, nextOid = 0\<rparr>"

text \<open>\<open>updateDifficulty(playerPosition)\<close>; \<open>pz\<close> is \<open>playerPosition.z\<close>.\<close>

definition updateDifficulty :: "real \<Rightarrow> obstacle_manager \<Rightarrow> obstacle_manager" where
  "updateDifficulty pz s =
     (let distanceTraveled = \<bar>pz\<bar>;
          s1 = s\<lparr>difficultyLevel := 1 + \<lfloor>distanceTraveled / 500\<rfloor>\<rparr>;
          s2 = s1\<lparr>obstacleSpawnFrequency := 2 / 10 + real_of_int (difficultyLevel s1) * (5 / 100)\<rparr>;
          s3 = s2\<lparr>maxObstaclesOnScreen := 20 + difficultyLevel s2 * 2\<rparr>
      in s3\<lparr>obstacleSpread := 30 + real_of_int (difficultyLevel s3) * 5\<rparr>)"

definition recycleObstacle :: "obstacle \<Rightarrow> obstacle_manager \<Rightarrow> obstacle_manager" where
  "recycleObstacle ob s = s\<lparr>obstaclePool := obstaclePool s @ [ob\<lparr>obstacleBody := None\<rparr>]\<rparr>"

text \<open>
  \<open>removeDistantObstacles\<close>: the callback of \<open>filter\<close> recycles what it drops; the
  result of the loop is the kept array and the manager with the grown pool.
\<close>

fun removeDistant_loop ::
  "real \<Rightarrow> obstacle list \<Rightarrow> obstacle_manager \<Rightarrow> obstacle list \<times> obstacle_manager" where
  "removeDistant_loop pz [] s = ([], s)"
| "removeDistant_loop pz (ob # obs) s =
     (if vz (position ob) > pz + 50
      then removeDistant_loop pz obs (recycleObstacle ob s)
      else (case removeDistant_loop pz obs s of (kept, s') \<Rightarrow> (ob # kept, s')))"

definition removeDistantObstacles :: "real \<Rightarrow> obstacle_manager \<Rightarrow> obstacle_manager" where
  "removeDistantObstacles pz s =
     (case removeDistant_loop pz (activeObstacles s) s of
        (kept, s') \<Rightarrow> s'\<lparr>activeObstacles := kept\<rparr>)"

text \<open>
  \<open>getObstacleFromPool(type)\<close>: \<open>findIndex\<close> and \<open>splice\<close> take the first pooled
  object of the type out of the pool.
\<close>

fun takeFirstOfType :: "obstacle_type \<Rightarrow> obstacle list \<Rightarrow> (obstacle \<times> obstacle list) option" where
  "takeFirstOfType ty [] = None"
| "takeFirstOfType ty (ob # obs) =
     (if otype ob = ty then Some (ob, obs)
      else (case takeFirstOfType ty obs of
              None \<Rightarrow> None
            | Some (found, others) \<Rightarrow> Some (found, ob # others)))"

definition getObstacleFromPool ::
  "obstacle_type \<Rightarrow> obstacle_manager \<Rightarrow> obstacle option \<times> obstacle_manager" where
  "getObstacleFromPool ty s =
     (case takeFirstOfType ty (obstaclePool s) of
        None \<Rightarrow> (None, s)
      | Some (ob, others) \<Rightarrow> (Some ob, s\<lparr>obstaclePool := others\<rparr>))"

text \<open>
  \<open>createObstacle(typeData, x, z)\<close>: a pooled object of the type, or a new object from
  \<open>typeData.createFunc()\<close>; then the fields are set, the flag is cleared and
  \<open>addObstaclePhysics\<close> attaches a body at the obstacle's position.
\<close>

definition createObstacle ::
  "obstacle_type \<Rightarrow> real \<Rightarrow> real \<Rightarrow> obstacle_manager \<Rightarrow> obstacle \<times> obstacle_manager" where
  "createObstacle ty x z s =
     (let pos = \<lparr>vx = x, vy = 0, vz = z\<rparr>;
          (base, s1) =
             (case getObstacleFromPool ty s of
                (Some ob, s') \<Rightarrow> (ob, s')
              | (None, s') \<Rightarrow>
                  (\<lparr>oid = nextOid s', otype = ty, position = pos,
                    collisionRadius = typeCollisionRadius ty,
                    damageMultiplier = typeDamageMultiplier ty,
                    isAvoidedCounted = False, obstacleBody = None\<rparr>,
                   s'\<lparr>nextOid := Suc (nextOid s')\<rparr>))
      in (base\<lparr>position := pos, otype := ty,
                collisionRadius := typeCollisionRadius ty,
                damageMultiplier := typeDamageMultiplier ty,
                isAvoidedCounted := False,
                obstacleBody := Some pos\<rparr>, s1))"

text \<open>The five values of \<open>Math.random()\<close> that \<open>generateObstacle\<close> may draw, in order.\<close>

record spawn_random =
  rSpawn :: real
  rX :: real
  rType :: real
  rEscalate :: real
  rSpacing :: real

text \<open>
  \<open>generateObstacle(playerPosition)\<close>. \<open>obstacleTypesData[typeIndex]\<close> is
  \<open>undefined\<close> outside the table, and \<open>createObstacle\<close> then throws on
  \<open>typeData.type\<close>; with \<open>Math.random()\<close> in \<open>[0, 1)\<close> the index is inside.
\<close>

definition generateObstacle ::
  "real \<Rightarrow> spawn_random \<Rightarrow> obstacle_manager \<Rightarrow> js_error + obstacle_manager" where
  "generateObstacle pz rnd s =
     (if rSpawn rnd > obstacleSpawnFrequency s then Inr s
      else let zDistance = pz - nextObstacleZ s
        in if \<bar>zDistance\<bar> < minDistanceBetweenObstacles s then Inr s
        else let xPosition = (rX rnd * 2 - 1) * obstacleSpread s;
                 n = int (length obstacleTypesData);
                 typeIndex0 = \<lfloor>rType rnd * real_of_int n\<rfloor>;
                 typeIndex = (if rEscalate rnd < (2 / 10) * real_of_int (difficultyLevel s)
                              then min (typeIndex0 + 1) (n - 1) else typeIndex0)
          in if 0 \<le> typeIndex \<and> typeIndex < n
             then (case createObstacle (obstacleTypesData ! nat typeIndex) xPosition
                          (nextObstacleZ s) s of
                     (ob, s1) \<Rightarrow>
                       Inr (s1\<lparr>activeObstacles := activeObstacles s1 @ [ob],
                                nextObstacleZ := nextObstacleZ s1
                                  - minDistanceBetweenObstacles s1 * (1 + rSpacing rnd * (5 / 10))\<rparr>))
             else Inl TypeError)"

text \<open>
  \<open>checkObstaclesPassed\<close>: the \<open>forEach\<close> over the active array, with the counter
  threaded through. The text written to the score element is not modelled.
\<close>

fun checkPassed_loop :: "real \<Rightarrow> obstacle list \<Rightarrow> nat \<Rightarrow> obstacle list \<times> nat" where
  "checkPassed_loop pz [] n = ([], n)"
| "checkPassed_loop pz (ob # obs) n =
     (if \<not> isAvoidedCounted ob \<and> vz (position ob) > pz + 5
      then (case checkPassed_loop pz obs (Suc n) of
              (obs', n') \<Rightarrow> (ob\<lparr>isAvoidedCounted := True\<rparr> # obs', n'))
      else (case checkPassed_loop pz obs n of
              (obs', n') \<Rightarrow> (ob # obs', n')))"

definition checkObstaclesPassed :: "real \<Rightarrow> obstacle_manager \<Rightarrow> obstacle_manager" where
  "checkObstaclesPassed pz s =
     (case checkPassed_loop pz (activeObstacles s) (obstaclesAvoided s) of
        (obs', n') \<Rightarrow> s\<lparr>activeObstacles := obs', obstaclesAvoided := n'\<rparr>)"

text \<open>The objects that a call of \<open>checkObstaclesPassed\<close> counts, by identity.\<close>

definition countedBy :: "real \<Rightarrow> obstacle_manager \<Rightarrow> nat list" where
  "countedBy pz s =
     map oid (filter (\<lambda>ob. \<not> isAvoidedCounted ob \<and> vz (position ob) > pz + 5)
                     (activeObstacles s))"

text \<open>\<open>update(playerPosition, deltaTime)\<close>.\<close>

definition ObstacleManager_update ::
  "real \<Rightarrow> spawn_random \<Rightarrow> obstacle_manager \<Rightarrow> js_error + obstacle_manager" where
  "ObstacleManager_update pz rnd s =
     (let s1 = updateDifficulty pz s;
          s2 = removeDistantObstacles pz s1
      in case (if int (length (activeObstacles s2)) < maxObstaclesOnScreen s2
               then generateObstacle pz rnd s2 else Inr s2) of
           Inl e \<Rightarrow> Inl e
         | Inr s3 \<Rightarrow> Inr (checkObstaclesPassed pz s3))"

text \<open>\<open>reset()\<close>.\<close>

definition ObstacleManager_reset :: "obstacle_manager \<Rightarrow> obstacle_manager" where
  "ObstacleManager_reset s =
     (fold recycleObstacle (activeObstacles s) s)
       \<lparr>activeObstacles := [], nextObstacleZ := - 100,
        obstaclesAvoided := 0, difficultyLevel := 1\<rparr>"

definition getObstaclesAvoided :: "obstacle_manager \<Rightarrow> nat" where
  "getObstaclesAvoided s = obstaclesAvoided s"

text \<open>A run of ticks of the manager; an exception stops the frame loop.\<close>

fun ObstacleManager_ticks ::
  "(real \<times> spawn_random) list \<Rightarrow> obstacle_manager \<Rightarrow> js_error + obstacle_manager" where
  "ObstacleManager_ticks [] s = Inr s"
| "ObstacleManager_ticks ((pz, rnd) # ins) s =
     (case ObstacleManager_update pz rnd s of
        Inl e \<Rightarrow> Inl e
      | Inr s' \<Rightarrow> ObstacleManager_ticks ins s')"


section \<open>Player controller (class Player)\<close>

text \<open>
  The rigid body belongs to the physics engine. What the player writes to it is logged
  in call order; what the player reads from it (its position, the downward ray cast) is
  an input of the tick.
\<close>

datatype body_call =
    SetVelocity vec3
  | SetVelocityZ real
  | SetAngularVelocity vec3
  | SetPosition vec3
  | SetQuaternion real real real real
  | ApplyImpulse vec3 vec3
  | ApplyForce vec3 vec3

datatype event = PlayerDied

record player =
  speed :: real
  maxSpeed :: real
  initialSpeed :: real
  acceleration :: real
  lateralSpeed :: real
  jumpForce :: real
  health :: real
  isDead :: bool
  moveLeft :: bool
  moveRight :: bool
  isJumping :: bool
  isGrounded :: bool
  mass :: real
  meshRotationZ :: real
  bodyCalls :: "body_call list"
  dispatched :: "event list"

text \<open>
  The constructor; \<open>createPlayerBody\<close> sets the initial velocity. \<open>isGrounded\<close> is
  \<open>undefined\<close> until the first update, which is falsy.
\<close>

definition Player_new :: player where
  "Player_new =
     \<lparr>speed = 0, maxSpeed = 300, initialSpeed = 50, acceleration = 2 / 10,
      lateralSpeed = 80, jumpForce = 15, health = 100, isDead = False,
      moveLeft = False, moveRight = False, isJumping = False, isGrounded = False,
      mass = 70, meshRotationZ = 0,
      bodyCalls = [SetVelocity \<lparr>vx = 0, vy = 0, vz = - 50\<rparr>],
      dispatched = []\<rparr>"

record tick_env =
  bodyPosition :: vec3
  rayHasHit :: bool
  rayDistance :: real

definition zero3 :: vec3 where
  "zero3 = \<lparr>vx = 0, vy = 0, vz = 0\<rparr>"

text \<open>The global \<open>lerp(start, end, amt)\<close> of the utility functions.\<close>

definition utils_lerp :: "real \<Rightarrow> real \<Rightarrow> real \<Rightarrow> real" where
  "utils_lerp start finish amt = (1 - amt) * start + amt * finish"

text \<open>\<open>applyControls(deltaTime)\<close>.\<close>

definition lateralForce :: "real \<Rightarrow> player \<Rightarrow> real" where
  "lateralForce deltaTime s =
     (if moveLeft s then - lateralSpeed s * deltaTime
      else if moveRight s then lateralSpeed s * deltaTime
      else 0)"

definition applyControls :: "real \<Rightarrow> player \<Rightarrow> player" where
  "applyControls deltaTime s =
     (let f = lateralForce deltaTime s;
          s1 = (if f \<noteq> 0
                then s\<lparr>bodyCalls := bodyCalls s @ [ApplyImpulse \<lparr>vx = f, vy = 0, vz = 0\<rparr> zero3]\<rparr>
                else s);
          targetRotationZ = (if moveLeft s1 then 2 / 10 else if moveRight s1 then - (2 / 10) else 0)
      in s1\<lparr>meshRotationZ := utils_lerp (meshRotationZ s1) targetRotationZ (5 * deltaTime)\<rparr>)"

text \<open>The impulses among the calls made on the body.\<close>

fun impulses :: "body_call list \<Rightarrow> (vec3 \<times> vec3) list" where
  "impulses [] = []"
| "impulses (ApplyImpulse v pt # cs) = (v, pt) # impulses cs"
| "impulses (c # cs) = impulses cs"

text \<open>\<open>updatePhysics()\<close>.\<close>

definition updatePhysics :: "tick_env \<Rightarrow> player \<Rightarrow> player" where
  "updatePhysics env s =
     (let s1 = s\<lparr>bodyCalls := bodyCalls s @
                   [SetVelocityZ (- speed s),
                    ApplyForce \<lparr>vx = 0, vy = - (982 / 100) * mass s, vz = 0\<rparr> zero3]\<rparr>;
          s2 = s1\<lparr>isGrounded := (rayHasHit env \<and> rayDistance env < 6 / 10)\<rparr>
      in if isGrounded s2 \<and> isJumping s2 then s2\<lparr>isJumping := False\<rparr> else s2)"

text \<open>
  \<open>applyRagdollEffect()\<close>; \<open>rs 0\<close> to \<open>rs 5\<close> are its six values of
  \<open>Math.random()\<close>.
\<close>

definition applyRagdollEffect :: "(nat \<Rightarrow> real) \<Rightarrow> player \<Rightarrow> player" where
  "applyRagdollEffect rs s =
     s\<lparr>bodyCalls := bodyCalls s @
        [ApplyImpulse \<lparr>vx = (rs 0 - 1 / 2) * 20, vy = rs 1 * 10, vz = rs 2 * 10\<rparr> zero3,
         SetAngularVelocity
           \<lparr>vx = (rs 3 - 1 / 2) * 5, vy = (rs 4 - 1 / 2) * 5, vz = (rs 5 - 1 / 2) * 5\<rparr>]\<rparr>"

text \<open>\<open>die()\<close>.\<close>

definition die :: "(nat \<Rightarrow> real) \<Rightarrow> player \<Rightarrow> player" where
  "die rs s =
     (if \<not> isDead s
      then (let s1 = s\<lparr>isDead := True\<rparr>;
                s2 = s1\<lparr>bodyCalls := bodyCalls s1 @ [SetVelocity zero3]\<rparr>;
                s3 = applyRagdollEffect rs s2
            in s3\<lparr>dispatched := dispatched s3 @ [PlayerDied]\<rparr>)
      else s)"

text \<open>\<open>checkTerrainCollision()\<close>.\<close>

definition checkTerrainCollision :: "tick_env \<Rightarrow> (nat \<Rightarrow> real) \<Rightarrow> player \<Rightarrow> player" where
  "checkTerrainCollision env rs s =
     (if \<bar>vx (bodyPosition env)\<bar> > 500 \<or> vy (bodyPosition env) < - 100
      then die rs s else s)"

text \<open>
  \<open>update(deltaTime)\<close>. \<open>updateMeshFromBody\<close>, \<open>animateLimbs\<close> and
  \<open>updateParticles\<close> write only to the mesh and its limbs, which apart from the tilt
  are not in the model.
\<close>

definition Player_update :: "real \<Rightarrow> tick_env \<Rightarrow> (nat \<Rightarrow> real) \<Rightarrow> player \<Rightarrow> player" where
  "Player_update deltaTime env rs s =
     (if isDead s then s
      else (let s1 = s\<lparr>speed := min (maxSpeed s) (speed s + acceleration s)\<rparr>;
                s2 = applyControls deltaTime s1;
                s3 = updatePhysics env s2
            in checkTerrainCollision env rs s3))"

text \<open>\<open>jump()\<close>.\<close>

definition jump :: "player \<Rightarrow> player" where
  "jump s =
     (if \<not> isJumping s \<and> isGrounded s
      then s\<lparr>bodyCalls := bodyCalls s @
               [ApplyImpulse \<lparr>vx = 0, vy = jumpForce s, vz = 0\<rparr> zero3],
             isJumping := True\<rparr>
      else s)"

text \<open>\<open>takeDamage(amount)\<close>.\<close>

definition takeDamage :: "real \<Rightarrow> (nat \<Rightarrow> real) \<Rightarrow> player \<Rightarrow> player" where
  "takeDamage amount rs s =
     (let s1 = s\<lparr>health := health s - amount\<rparr>
      in if health s1 \<le> 0 then die rs s1 else s1)"

text \<open>
  \<open>checkObstacleCollision(obstacle)\<close>: the result and the player. Reading
  \<open>obstacle.body.position\<close> of an obstacle without a body throws.
\<close>

definition distanceTo :: "vec3 \<Rightarrow> vec3 \<Rightarrow> real" where
  "distanceTo a b = sqrt ((vx a - vx b)\<^sup>2 + (vy a - vy b)\<^sup>2 + (vz a - vz b)\<^sup>2)"

definition checkObstacleCollision ::
  "tick_env \<Rightarrow> (nat \<Rightarrow> real) \<Rightarrow> obstacle \<Rightarrow> player \<Rightarrow> js_error + (bool \<times> player)" where
  "checkObstacleCollision env rs ob s =
     (case obstacleBody ob of
        None \<Rightarrow> Inl TypeError
      | Some obstaclePos \<Rightarrow>
          (let playerPos = bodyPosition env;
               collisionDistance = collisionRadius ob + 5 / 10
           in if distanceTo playerPos obstaclePos < collisionDistance
              then (let damage = speed s * damageMultiplier ob * (1 / 10)
                    in Inr (True, takeDamage damage rs s))
              else Inr (False, s)))"

text \<open>\<open>reset()\<close>.\<close>

definition Player_reset :: "player \<Rightarrow> player" where
  "Player_reset s =
     s\<lparr>speed := initialSpeed s, health := 100, isDead := False,
       bodyCalls := bodyCalls s @
         [SetPosition \<lparr>vx = 0, vy = 5, vz = 0\<rparr>,
          SetVelocity \<lparr>vx = 0, vy = 0, vz = - initialSpeed s\<rparr>,
          SetAngularVelocity zero3,
          SetQuaternion 0 0 0 1],
       meshRotationZ := 0,
       moveLeft := False, moveRight := False, isJumping := False\<rparr>"

text \<open>The speed after \<open>n\<close> further updates of a player that stays alive.\<close>

fun Player_updates :: "(real \<times> tick_env \<times> (nat \<Rightarrow> real)) list \<Rightarrow> player \<Rightarrow> player" where
  "Player_updates [] s = s"
| "Player_updates ((dt, env, rs) # ins) s = Player_updates ins (Player_update dt env rs s)"

section \<open>The speed ramp in binary64\<close>

text \<open>
  JavaScript numbers are IEEE 754 binary64 values and \<open>+\<close> rounds the exact sum to the
  nearest of them, ties to the even significand. The sections above compute in exact
  arithmetic; where the rounding decides a property, the statement of the source is
  read again with it. \<open>rnd64 r\<close> is the binary64 value nearest to \<open>r\<close>, for
  \<open>\<bar>r\<bar> < 2 ^ 1024\<close> (no overflow to an infinity): \<open>expo2 r\<close> is \<open>\<lfloor>log\<^sub>2 r\<rfloor>\<close> for
  \<open>r > 0\<close>, the spacing of the values around \<open>r\<close> is \<open>2 ^ (e - 52)\<close>, where the exponent
  \<open>e\<close> is at least \<open>-1022\<close> (subnormal numbers).
\<close>

definition round_half_even :: "real \<Rightarrow> int" where
  "round_half_even x =
     (let f = \<lfloor>x\<rfloor>; d = x - of_int f
      in if d < 1 / 2 then f
         else if 1 / 2 < d then f + 1
         else if even f then f else f + 1)"

definition expo2 :: "real \<Rightarrow> int" where
  "expo2 r = (if 1 \<le> r then bitlen \<lfloor>r\<rfloor> - 1 else - bitlen (\<lceil>1 / r\<rceil> - 1))"

definition pow2 :: "int \<Rightarrow> real" where
  "pow2 k = (if 0 \<le> k then 2 ^ nat k else 1 / 2 ^ nat (- k))"

definition rnd64 :: "real \<Rightarrow> real" where
  "rnd64 r =
     (if r = 0 then 0
      else (let e = max (expo2 \<bar>r\<bar>) (- 1022);
                ulp = pow2 (e - 52)
            in of_int (round_half_even (r / ulp)) * ulp))"

definition js_add :: "real \<Rightarrow> real \<Rightarrow> real" where
  "js_add a b = rnd64 (a + b)"

text \<open>
  \<open>this.speed = Math.min(this.maxSpeed, this.speed + this.acceleration)\<close> on binary64
  values, and \<open>n\<close> such updates.
\<close>

definition speedStep64 :: "real \<Rightarrow> real \<Rightarrow> real \<Rightarrow> real" where
  "speedStep64 maxSpeed64 acceleration64 speed64 = min maxSpeed64 (js_add speed64 acceleration64)"

fun speedRamp64 :: "nat \<Rightarrow> real \<Rightarrow> real \<Rightarrow> real \<Rightarrow> real" where
  "speedRamp64 0 maxSpeed64 acceleration64 speed64 = speed64"
| "speedRamp64 (Suc n) maxSpeed64 acceleration64 speed64 =
     speedRamp64 n maxSpeed64 acceleration64 (speedStep64 maxSpeed64 acceleration64 speed64)"

text \<open>
  The player's speed after \<open>n\<close> updates that leave it alive, from the fields of the
  player as binary64 values (the literal \<open>0.2\<close> is the binary64 value nearest to it).
\<close>

definition Player_speed64 :: "nat \<Rightarrow> player \<Rightarrow> real" where
  "Player_speed64 n s =
     speedRamp64 n (rnd64 (maxSpeed s)) (rnd64 (acceleration s)) (rnd64 (speed s))"

section \<open>The difficulty curve as the specification words it\<close>

text \<open>
  The specification's formulas, to be compared with \<open>updateDifficulty\<close> and
  \<open>iceFactor\<close>: \<open>level(distance) = 1 + floor(distance / 500)\<close>,
  \<open>spawnFrequency = 0.2 + 0.05 L\<close>, \<open>maxObstacles = 20 + 2 L\<close>,
  \<open>obstacleSpread = 30 + 5 L\<close>, \<open>iceProbability(chunkIndex) = min(0.8, 0.1 chunkIndex)\<close>.
\<close>

definition spec_level :: "real \<Rightarrow> int" where
  "spec_level distance = 1 + \<lfloor>distance / 500\<rfloor>"

definition spec_spawnFrequency :: "int \<Rightarrow> real" where
  "spec_spawnFrequency l = 2 / 10 + (5 / 100) * real_of_int l"

definition spec_maxObstacles :: "int \<Rightarrow> int" where
  "spec_maxObstacles l = 20 + 2 * l"

definition spec_obstacleSpread :: "int \<Rightarrow> real" where
  "spec_obstacleSpread l = 30 + 5 * real_of_int l"

definition spec_iceProbability :: "int \<Rightarrow> real" where
  "spec_iceProbability idx = min (8 / 10) ((1 / 10) * real_of_int idx)"

section \<open>Auxiliary notions\<close>

text \<open>A source of random numbers (or of engine answers) that always gives the same value.\<close>

definition always :: "'a \<Rightarrow> nat \<Rightarrow> 'a" where
  "always v i = v"

text \<open>The indices of the active chunks, and the list \<open>a, a + 1, \<dots>, a + n - 1\<close>.\<close>

definition chunkIndices :: "terrain \<Rightarrow> int list" where
  "chunkIndices t = map chunkIndex (terrainChunks t)"

definition rangeFrom :: "int \<Rightarrow> nat \<Rightarrow> int list" where
  "rangeFrom a n = map (\<lambda>k. a + int k) [0..<n]"

text \<open>
  The invariant of the streamer built by the constructor: five visible chunks, the
  active indices are the range that starts at \<open>currentChunkIndex\<close>, and there are five
  or six of them.
\<close>

definition chunkRangeOk :: "terrain \<Rightarrow> bool" where
  "chunkRangeOk t =
     (visibleChunks t = 5 \<and>
      chunkIndices t = rangeFrom (currentChunkIndex t) (length (terrainChunks t)) \<and>
      (length (terrainChunks t) = 5 \<or> length (terrainChunks t) = 6))"

text \<open>The test of \<open>checkObstaclesPassed\<close> for one obstacle.\<close>

definition passedNow :: "real \<Rightarrow> obstacle \<Rightarrow> bool" where
  "passedNow pz ob \<longleftrightarrow> \<not> isAvoidedCounted ob \<and> vz (position ob) > pz + 5"

text \<open>The binary64 value nearest to \<open>0.2\<close>, the acceleration of the player.\<close>

definition acc64 :: real where
  "acc64 = 3602879701896397 / 2 ^ 54"

text \<open>
  The body is inside the bounds that \<open>checkTerrainCollision\<close> tests: the tick does not
  kill the player.
\<close>

definition onSlope :: "tick_env \<Rightarrow> bool" where
  "onSlope env \<longleftrightarrow> \<bar>vx (bodyPosition env)\<bar> \<le> 500 \<and> - 100 \<le> vy (bodyPosition env)"

section \<open>Chunk contiguity\<close>

lemma rangeFrom_Suc: "rangeFrom a (Suc n) = rangeFrom a n @ [a + int n]"
  by (simp add: rangeFrom_def)

lemma rangeFrom_tl: "tl (rangeFrom a (Suc n)) = rangeFrom (a + 1) n"
proof -
  have "rangeFrom a (Suc n) = a # rangeFrom (a + 1) n"
    unfolding rangeFrom_def
    by (simp add: upt_conv_Cons map_Suc_upt[symmetric] del: upt_Suc)
  then show ?thesis by simp
qed

lemma generateChunk_snd:
  "visibleChunks (snd (generateChunk r ok idx t)) = visibleChunks t"
  "currentChunkIndex (snd (generateChunk r ok idx t)) = currentChunkIndex t"
  "terrainChunks (snd (generateChunk r ok idx t)) = terrainChunks t"
  "chunkSize (snd (generateChunk r ok idx t)) = chunkSize t"
  "chunkIndex (fst (generateChunk r ok idx t)) = idx"
  by (simp_all add: generateChunk_def addTerrainPhysics_def Let_def)

lemma generateNextChunk_fields:
  "visibleChunks (generateNextChunk r ok t) = visibleChunks t"
  "currentChunkIndex (generateNextChunk r ok t) = currentChunkIndex t"
  "chunkSize (generateNextChunk r ok t) = chunkSize t"
  "terrainChunks (generateNextChunk r ok t) =
     terrainChunks t @ [fst (generateChunk r ok (currentChunkIndex t + int (length (terrainChunks t))) t)]"
  by (simp_all add: generateNextChunk_def Let_def split_beta generateChunk_snd)

lemma generateNextChunk_indices:
  "chunkIndices t = rangeFrom (currentChunkIndex t) (length (terrainChunks t)) \<Longrightarrow>
   chunkIndices (generateNextChunk r ok t) =
     rangeFrom (currentChunkIndex t) (Suc (length (terrainChunks t)))"
  by (simp add: chunkIndices_def generateNextChunk_fields generateChunk_snd rangeFrom_Suc)

lemma removeOldestChunk_fields:
  assumes "removeOldestChunk t = Inr t'"
  shows "visibleChunks t' = visibleChunks t"
    and "currentChunkIndex t' = currentChunkIndex t + 1"
    and "terrainChunks t' = tl (terrainChunks t)"
    and "chunkSize t' = chunkSize t"
  using assms by (auto simp: removeOldestChunk_def Let_def split: list.splits)

lemma removeOldestChunk_indices:
  assumes "removeOldestChunk t = Inr t'"
    and "chunkIndices t = rangeFrom (currentChunkIndex t) (Suc n)"
  shows "chunkIndices t' = rangeFrom (currentChunkIndex t') n"
proof -
  have "chunkIndices t' = tl (chunkIndices t)"
    by (simp add: chunkIndices_def removeOldestChunk_fields[OF assms(1)] map_tl)
  then show ?thesis
    by (simp add: assms(2) rangeFrom_tl removeOldestChunk_fields[OF assms(1)])
qed

lemma initial_loop:
  assumes "length (terrainChunks t) = i" and "i \<le> visibleChunks t"
    and "chunkIndices t = rangeFrom 0 i" and "currentChunkIndex t = 0"
  shows "length (terrainChunks (generateInitialChunks_loop rs oks i t)) = visibleChunks t
       \<and> chunkIndices (generateInitialChunks_loop rs oks i t) = rangeFrom 0 (visibleChunks t)
       \<and> currentChunkIndex (generateInitialChunks_loop rs oks i t) = 0
       \<and> visibleChunks (generateInitialChunks_loop rs oks i t) = visibleChunks t"
  using assms
proof (induction rs oks i t rule: generateInitialChunks_loop.induct)
  case (1 rs oks i t)
  show ?case
  proof (cases "i < visibleChunks t")
    case True
    obtain c t' where g: "generateChunk (rs i) (oks i) (int i) t = (c, t')"
      by (cases "generateChunk (rs i) (oks i) (int i) t")
    let ?t2 = "t'\<lparr>terrainChunks := terrainChunks t' @ [c]\<rparr>"
    have c: "chunkIndex c = int i" and t': "terrainChunks t' = terrainChunks t"
      "visibleChunks t' = visibleChunks t" "currentChunkIndex t' = currentChunkIndex t"
      using generateChunk_snd[of "rs i" "oks i" "int i" t] g by simp_all
    have "length (terrainChunks (generateInitialChunks_loop rs oks (Suc i) ?t2)) = visibleChunks ?t2
       \<and> chunkIndices (generateInitialChunks_loop rs oks (Suc i) ?t2) = rangeFrom 0 (visibleChunks ?t2)
       \<and> currentChunkIndex (generateInitialChunks_loop rs oks (Suc i) ?t2) = 0
       \<and> visibleChunks (generateInitialChunks_loop rs oks (Suc i) ?t2) = visibleChunks ?t2"
    proof (rule "1.IH"[OF True g[symmetric]])
      show "length (terrainChunks ?t2) = Suc i" using "1.prems" t' by simp
      show "Suc i \<le> visibleChunks ?t2" using True t' by simp
      show "chunkIndices ?t2 = rangeFrom 0 (Suc i)"
        using "1.prems" t' c by (simp add: chunkIndices_def rangeFrom_Suc)
      show "currentChunkIndex ?t2 = 0" using "1.prems" t' by simp
    qed
    then show ?thesis
      using True g t' by (subst (1 2 3 4) generateInitialChunks_loop.simps) simp
  next
    case False
    with "1.prems" have "i = visibleChunks t" by simp
    with False "1.prems" show ?thesis
      by (subst (1 2 3 4) generateInitialChunks_loop.simps) simp
  qed
qed

lemma Terrain_new_ok: "chunkRangeOk (Terrain_new rs oks)"
proof -
  let ?t0 = "\<lparr>chunkSize = 500, visibleChunks = 5, currentChunkIndex = 0,
        terrainChunks = [], terrainBodies = []\<rparr>"
  have "length (terrainChunks (generateInitialChunks_loop rs oks 0 ?t0)) = visibleChunks ?t0
       \<and> chunkIndices (generateInitialChunks_loop rs oks 0 ?t0) = rangeFrom 0 (visibleChunks ?t0)
       \<and> currentChunkIndex (generateInitialChunks_loop rs oks 0 ?t0) = 0
       \<and> visibleChunks (generateInitialChunks_loop rs oks 0 ?t0) = visibleChunks ?t0"
    by (rule initial_loop) (simp_all add: chunkIndices_def rangeFrom_def)
  then show ?thesis
    by (simp add: chunkRangeOk_def Terrain_new_def generateInitialChunks_def)
qed

lemma Terrain_update_split:
  assumes "Terrain_update z r ok t = Inr t'"
  obtains t1 new where
    "terrainChunks t1 = terrainChunks t @ new"
    "currentChunkIndex t1 = currentChunkIndex t"
    "visibleChunks t1 = visibleChunks t"
    "new = [] \<or> (new = [fst (generateChunk r ok (currentChunkIndex t + int (length (terrainChunks t))) t)]
        \<and> playerChunkIndex t z + 3 \<ge> currentChunkIndex t + int (length (terrainChunks t)))"
    "(length (terrainChunks t1) > visibleChunks t1 \<and> playerChunkIndex t z > currentChunkIndex t1 + 2
        \<and> removeOldestChunk t1 = Inr t')
     \<or> (\<not> (length (terrainChunks t1) > visibleChunks t1 \<and> playerChunkIndex t z > currentChunkIndex t1 + 2)
        \<and> t' = t1)"
proof -
  define gen where "gen \<longleftrightarrow> playerChunkIndex t z + 3 \<ge> currentChunkIndex t + int (length (terrainChunks t))"
  define t1 where "t1 = (if gen then generateNextChunk r ok t else t)"
  define new where "new = (if gen
     then [fst (generateChunk r ok (currentChunkIndex t + int (length (terrainChunks t))) t)] else [])"
  have step: "(if length (terrainChunks t1) > visibleChunks t1 \<and> playerChunkIndex t z > currentChunkIndex t1 + 2
               then removeOldestChunk t1 else Inr t1) = Inr t'"
    using assms unfolding Terrain_update_def Let_def t1_def gen_def by simp
  show ?thesis
  proof (rule that[of t1 new])
    show "terrainChunks t1 = terrainChunks t @ new"
      by (simp add: t1_def new_def generateNextChunk_fields)
    show "currentChunkIndex t1 = currentChunkIndex t"
      by (simp add: t1_def generateNextChunk_fields)
    show "visibleChunks t1 = visibleChunks t"
      by (simp add: t1_def generateNextChunk_fields)
    show "new = [] \<or> (new = [fst (generateChunk r ok (currentChunkIndex t + int (length (terrainChunks t))) t)]
        \<and> playerChunkIndex t z + 3 \<ge> currentChunkIndex t + int (length (terrainChunks t)))"
      by (simp add: new_def gen_def)
    show "(length (terrainChunks t1) > visibleChunks t1 \<and> playerChunkIndex t z > currentChunkIndex t1 + 2
        \<and> removeOldestChunk t1 = Inr t')
     \<or> (\<not> (length (terrainChunks t1) > visibleChunks t1 \<and> playerChunkIndex t z > currentChunkIndex t1 + 2)
        \<and> t' = t1)"
      using step by (auto split: if_splits)
  qed
qed

lemma Terrain_update_ok:
  assumes inv: "chunkRangeOk t" and upd: "Terrain_update z r ok t = Inr t'"
  shows "chunkRangeOk t'"
proof -
  from inv have V: "visibleChunks t = 5"
    and I: "chunkIndices t = rangeFrom (currentChunkIndex t) (length (terrainChunks t))"
    and L: "length (terrainChunks t) = 5 \<or> length (terrainChunks t) = 6"
    by (simp_all add: chunkRangeOk_def)
  from upd obtain t1 new where
    T1: "terrainChunks t1 = terrainChunks t @ new"
    and C1: "currentChunkIndex t1 = currentChunkIndex t"
    and V1: "visibleChunks t1 = visibleChunks t"
    and N: "new = [] \<or> (new = [fst (generateChunk r ok (currentChunkIndex t + int (length (terrainChunks t))) t)]
        \<and> playerChunkIndex t z + 3 \<ge> currentChunkIndex t + int (length (terrainChunks t)))"
    and R: "(length (terrainChunks t1) > visibleChunks t1 \<and> playerChunkIndex t z > currentChunkIndex t1 + 2
        \<and> removeOldestChunk t1 = Inr t')
     \<or> (\<not> (length (terrainChunks t1) > visibleChunks t1 \<and> playerChunkIndex t z > currentChunkIndex t1 + 2)
        \<and> t' = t1)"
    by (rule Terrain_update_split)
  have I1: "chunkIndices t1 = rangeFrom (currentChunkIndex t1) (length (terrainChunks t1))"
    using N I by (auto simp: chunkIndices_def T1 C1 generateChunk_snd rangeFrom_Suc)
  have L1: "length (terrainChunks t1) = length (terrainChunks t) + length new"
    by (simp add: T1)
  from R show ?thesis
  proof (elim disjE conjE)
    assume big: "visibleChunks t1 < length (terrainChunks t1)"
      and rm: "removeOldestChunk t1 = Inr t'"
    from big V1 V obtain n where n: "length (terrainChunks t1) = Suc n" and n5: "5 \<le> n"
      by (cases "length (terrainChunks t1)") auto
    have n6: "n \<le> 6" using n L1 L N by auto
    have I1': "chunkIndices t1 = rangeFrom (currentChunkIndex t1) (Suc n)"
      using I1 n by simp
    have "chunkIndices t' = rangeFrom (currentChunkIndex t') n"
      by (rule removeOldestChunk_indices[OF rm I1'])
    moreover have "length (terrainChunks t') = n"
      using removeOldestChunk_fields(3)[OF rm] n by simp
    moreover have "visibleChunks t' = 5"
      using removeOldestChunk_fields(1)[OF rm] V1 V by simp
    ultimately show ?thesis
      using n5 n6 by (auto simp: chunkRangeOk_def)
  next
    assume keep: "\<not> (visibleChunks t1 < length (terrainChunks t1)
        \<and> currentChunkIndex t1 + 2 < playerChunkIndex t z)" and t': "t' = t1"
    have "length (terrainChunks t1) = 5 \<or> length (terrainChunks t1) = 6"
      using keep L L1 N V V1 C1 by auto
    with V1 V I1 show ?thesis
      by (simp add: t' chunkRangeOk_def)
  qed
qed

lemma Terrain_ticks_ok:
  "chunkRangeOk t \<Longrightarrow> Terrain_ticks ins t = Inr t' \<Longrightarrow> chunkRangeOk t'"
proof (induction ins arbitrary: t)
  case Nil
  then show ?case by simp
next
  case (Cons a ins)
  obtain z r ok where a: "a = (z, r, ok)" by (cases a)
  from Cons.prems(2) obtain t1 where u: "Terrain_update z r ok t = Inr t1"
    and rest: "Terrain_ticks ins t1 = Inr t'"
    by (auto simp: a split: sum.splits)
  from Terrain_update_ok[OF Cons.prems(1) u] rest show ?case
    by (rule Cons.IH)
qed

lemma Terrain_update_edges:
  assumes upd: "Terrain_update z r ok t = Inr t'"
  shows "\<exists>new d. terrainChunks t' = drop d (terrainChunks t @ new)
           \<and> currentChunkIndex t' = currentChunkIndex t + int d
           \<and> d \<le> 1 \<and> length new \<le> 1
           \<and> map chunkIndex new = rangeFrom (currentChunkIndex t + int (length (terrainChunks t))) (length new)"
proof -
  from upd obtain t1 new where
    T1: "terrainChunks t1 = terrainChunks t @ new"
    and C1: "currentChunkIndex t1 = currentChunkIndex t"
    and N: "new = [] \<or> (new = [fst (generateChunk r ok (currentChunkIndex t + int (length (terrainChunks t))) t)]
        \<and> playerChunkIndex t z + 3 \<ge> currentChunkIndex t + int (length (terrainChunks t)))"
    and R: "(length (terrainChunks t1) > visibleChunks t1 \<and> playerChunkIndex t z > currentChunkIndex t1 + 2
        \<and> removeOldestChunk t1 = Inr t')
     \<or> (\<not> (length (terrainChunks t1) > visibleChunks t1 \<and> playerChunkIndex t z > currentChunkIndex t1 + 2)
        \<and> t' = t1)"
    by (rule Terrain_update_split)
  have NN: "length new \<le> 1 \<and> map chunkIndex new =
      rangeFrom (currentChunkIndex t + int (length (terrainChunks t))) (length new)"
    using N by (auto simp: generateChunk_snd rangeFrom_def)
  have tl_drop1: "tl zs = drop 1 zs" for zs :: "chunk list"
    by (simp add: drop_Suc)
  from R show ?thesis
  proof (elim disjE conjE)
    assume rm: "removeOldestChunk t1 = Inr t'"
    have "terrainChunks t' = drop 1 (terrainChunks t @ new)"
      using removeOldestChunk_fields(3)[OF rm] T1 tl_drop1 by simp
    moreover have "currentChunkIndex t' = currentChunkIndex t + int 1"
      using removeOldestChunk_fields(2)[OF rm] C1 by simp
    ultimately show ?thesis using NN by (intro exI[of _ new] exI[of _ 1]) simp
  next
    assume "t' = t1"
    then have "terrainChunks t' = drop 0 (terrainChunks t @ new)"
      and "currentChunkIndex t' = currentChunkIndex t + int 0"
      using T1 C1 by simp_all
    then show ?thesis using NN by (intro exI[of _ new] exI[of _ 0]) simp
  qed
qed

text \<open>
  A run of ticks ends with an exception only when a chunk is evicted while no collision
  body is stored. When the engine accepts every height field, every run returns.
\<close>

lemma generateChunk_bodies:
  "terrainBodies (snd (generateChunk r True idx t)) = terrainBodies t @ [idx]"
  by (simp add: generateChunk_def addTerrainPhysics_def Let_def)

lemma initial_loop_bodies:
  assumes "length (terrainBodies t) = length (terrainChunks t)" and "\<forall>i. oks i"
  shows "length (terrainBodies (generateInitialChunks_loop rs oks i t)) =
         length (terrainChunks (generateInitialChunks_loop rs oks i t))"
  using assms
proof (induction rs oks i t rule: generateInitialChunks_loop.induct)
  case (1 rs oks i t)
  show ?case
  proof (cases "i < visibleChunks t")
    case True
    obtain c t' where g: "generateChunk (rs i) (oks i) (int i) t = (c, t')"
      by (cases "generateChunk (rs i) (oks i) (int i) t")
    have ok: "oks i" using "1.prems"(2) by simp
    have t': "terrainChunks t' = terrainChunks t" "terrainBodies t' = terrainBodies t @ [int i]"
      using generateChunk_snd(3)[of "rs i" "oks i" "int i" t]
        generateChunk_bodies[of "rs i" "int i" t] g ok by simp_all
    have "length (terrainBodies (generateInitialChunks_loop rs oks (Suc i)
              (t'\<lparr>terrainChunks := terrainChunks t' @ [c]\<rparr>))) =
          length (terrainChunks (generateInitialChunks_loop rs oks (Suc i)
              (t'\<lparr>terrainChunks := terrainChunks t' @ [c]\<rparr>)))"
      by (rule "1.IH"[OF True g[symmetric]]) (simp_all add: t' "1.prems")
    then show ?thesis
      using True g by (subst (1 2) generateInitialChunks_loop.simps) simp
  next
    case False
    with "1.prems" show ?thesis
      by (subst (1 2) generateInitialChunks_loop.simps) simp
  qed
qed

lemma Terrain_new_bodies:
  "\<forall>i. oks i \<Longrightarrow>
   length (terrainBodies (Terrain_new rs oks)) = length (terrainChunks (Terrain_new rs oks))"
  unfolding Terrain_new_def generateInitialChunks_def
  by (rule initial_loop_bodies) simp_all

lemma Terrain_update_returns:
  assumes "length (terrainBodies t) = length (terrainChunks t)"
  shows "\<exists>t'. Terrain_update z r True t = Inr t'
            \<and> length (terrainBodies t') = length (terrainChunks t')"
proof -
  have gen: "length (terrainBodies (generateNextChunk r True t)) =
             length (terrainChunks (generateNextChunk r True t))"
    using assms
    by (simp add: generateNextChunk_def generateChunk_def addTerrainPhysics_def Let_def)
  have rem: "\<exists>t'. removeOldestChunk u = Inr t'
            \<and> length (terrainBodies t') = length (terrainChunks t')"
    if "length (terrainBodies u) = length (terrainChunks u)" "terrainChunks u \<noteq> []" for u
    using that by (cases "terrainBodies u") (auto simp: removeOldestChunk_def Let_def)
  define t1 where "t1 = (if playerChunkIndex t z + 3 \<ge> currentChunkIndex t + int (length (terrainChunks t))
                         then generateNextChunk r True t else t)"
  have b1: "length (terrainBodies t1) = length (terrainChunks t1)"
    using assms gen by (simp add: t1_def)
  have upd: "Terrain_update z r True t =
      (if length (terrainChunks t1) > visibleChunks t1 \<and> playerChunkIndex t z > currentChunkIndex t1 + 2
       then removeOldestChunk t1 else Inr t1)"
    by (simp add: Terrain_update_def Let_def t1_def)
  show ?thesis
  proof (cases "length (terrainChunks t1) > visibleChunks t1 \<and> playerChunkIndex t z > currentChunkIndex t1 + 2")
    case True
    then have "terrainChunks t1 \<noteq> []" by auto
    from rem[OF b1 this] True show ?thesis by (simp add: upd)
  next
    case False
    then have "Terrain_update z r True t = Inr t1" unfolding upd by (rule if_not_P)
    with b1 show ?thesis by simp
  qed
qed

lemma Terrain_ticks_returns_aux:
  assumes "length (terrainBodies t) = length (terrainChunks t)"
    and "\<forall>i \<in> set ins. snd (snd i)"
  shows "\<exists>t'. Terrain_ticks ins t = Inr t'"
  using assms
proof (induction ins arbitrary: t)
  case Nil
  then show ?case by simp
next
  case (Cons a ins)
  obtain z r ok where a: "a = (z, r, ok)" by (cases a)
  with Cons.prems(2) have ok by simp
  with Terrain_update_returns[OF Cons.prems(1), of z r] obtain t1 where
    u: "Terrain_update z r ok t = Inr t1"
    and b: "length (terrainBodies t1) = length (terrainChunks t1)" by auto
  from Cons.IH[OF b] Cons.prems(2) obtain t' where "Terrain_ticks ins t1 = Inr t'" by auto
  with u show ?case by (simp add: a)
qed

lemma Terrain_ticks_returns:
  assumes "\<forall>i. oks i" and "\<forall>i \<in> set ins. snd (snd i)"
  shows "\<exists>t. Terrain_ticks ins (Terrain_new rs oks) = Inr t"
  using Terrain_new_bodies[OF assms(1)] assms(2) by (rule Terrain_ticks_returns_aux)

text \<open>
  Claim C1, as the code has it. After any number of ticks of a streamer built by the
  constructor, the indices of the active chunks are the contiguous ascending range that
  starts at \<open>currentChunkIndex\<close>; the number of active chunks is \<open>visibleChunks\<close> or
  \<open>visibleChunks + 1\<close>. A further tick appends at most one chunk, at the index that
  follows the range, and removes at most one, the first of the range, advancing
  \<open>currentChunkIndex\<close> by the number of chunks removed.
\<close>

theorem Terrain_chunk_range:
  assumes "Terrain_ticks ins (Terrain_new rs oks) = Inr t"
  shows "map chunkIndex (terrainChunks t) =
           map (\<lambda>k. currentChunkIndex t + int k) [0..<length (terrainChunks t)]
       \<and> (length (terrainChunks t) = visibleChunks t
          \<or> length (terrainChunks t) = visibleChunks t + 1)
       \<and> (\<forall>z r ok t'. Terrain_update z r ok t = Inr t' \<longrightarrow>
            (\<exists>new d. terrainChunks t' = drop d (terrainChunks t @ new)
               \<and> currentChunkIndex t' = currentChunkIndex t + int d
               \<and> d \<le> 1 \<and> length new \<le> 1
               \<and> map chunkIndex new =
                   map (\<lambda>k. currentChunkIndex t + int (length (terrainChunks t)) + int k)
                       [0..<length new]))"
proof -
  have "chunkRangeOk t"
    using Terrain_new_ok assms by (rule Terrain_ticks_ok)
  then show ?thesis
    using Terrain_update_edges
    by (auto simp: chunkRangeOk_def chunkIndices_def rangeFrom_def)
qed


lemma Terrain_new_value:
  "Terrain_new (always (1 / 2)) (always True) =
     \<lparr>chunkSize = 500, visibleChunks = 5, currentChunkIndex = 0,
      terrainChunks = [\<lparr>chunkIndex = 0, chunkMaterial = Snow\<rparr>,
                       \<lparr>chunkIndex = 1, chunkMaterial = Snow\<rparr>,
                       \<lparr>chunkIndex = 2, chunkMaterial = Snow\<rparr>,
                       \<lparr>chunkIndex = 3, chunkMaterial = Snow\<rparr>,
                       \<lparr>chunkIndex = 4, chunkMaterial = Snow\<rparr>],
      terrainBodies = [0, 1, 2, 3, 4]\<rparr>"
  by (simp add: Terrain_new_def generateInitialChunks_def generateInitialChunks_loop.simps
        generateChunk_def addTerrainPhysics_def iceFactor_def always_def Let_def)

lemmas Terrain_eval =
  Terrain_new_value Terrain_update_def playerChunkIndex_def generateNextChunk_def
  removeOldestChunk_def generateChunk_def addTerrainPhysics_def iceFactor_def Let_def

theorem Terrain_chunk_range_witness:
  "\<exists>t t'. Terrain_ticks [(- 1000, 1 / 2, True)] (Terrain_new (always (1 / 2)) (always True)) = Inr t
     \<and> Terrain_update (- 1500) (1 / 2) True t = Inr t'
     \<and> map chunkIndex (terrainChunks t) = [0, 1, 2, 3, 4, 5]
     \<and> map chunkIndex (terrainChunks t) =
           map (\<lambda>k. currentChunkIndex t + int k) [0..<length (terrainChunks t)]
     \<and> (length (terrainChunks t) = visibleChunks t
          \<or> length (terrainChunks t) = visibleChunks t + 1)
     \<and> map chunkIndex (terrainChunks t') = [1, 2, 3, 4, 5, 6]
     \<and> (\<exists>new d. terrainChunks t' = drop d (terrainChunks t @ new)
               \<and> currentChunkIndex t' = currentChunkIndex t + int d
               \<and> d \<le> 1 \<and> length new \<le> 1
               \<and> map chunkIndex new =
                   map (\<lambda>k. currentChunkIndex t + int (length (terrainChunks t)) + int k)
                       [0..<length new])"
proof -
  define t where "t = \<lparr>chunkSize = 500, visibleChunks = 5, currentChunkIndex = 0,
      terrainChunks = [\<lparr>chunkIndex = 0, chunkMaterial = Snow\<rparr>,
                       \<lparr>chunkIndex = 1, chunkMaterial = Snow\<rparr>,
                       \<lparr>chunkIndex = 2, chunkMaterial = Snow\<rparr>,
                       \<lparr>chunkIndex = 3, chunkMaterial = Snow\<rparr>,
                       \<lparr>chunkIndex = 4, chunkMaterial = Snow\<rparr>,
                       \<lparr>chunkIndex = 5, chunkMaterial = Snow\<rparr>],
      terrainBodies = [0, 1, 2, 3, 4, 5]\<rparr>"
  define t' where "t' = \<lparr>chunkSize = 500, visibleChunks = 5, currentChunkIndex = 1,
      terrainChunks = [\<lparr>chunkIndex = 1, chunkMaterial = Snow\<rparr>,
                       \<lparr>chunkIndex = 2, chunkMaterial = Snow\<rparr>,
                       \<lparr>chunkIndex = 3, chunkMaterial = Snow\<rparr>,
                       \<lparr>chunkIndex = 4, chunkMaterial = Snow\<rparr>,
                       \<lparr>chunkIndex = 5, chunkMaterial = Snow\<rparr>,
                       \<lparr>chunkIndex = 6, chunkMaterial = Ice\<rparr>],
      terrainBodies = [1, 2, 3, 4, 5, 6]\<rparr>"
  have run: "Terrain_ticks [(- 1000, 1 / 2, True)] (Terrain_new (always (1 / 2)) (always True)) = Inr t"
    by (simp add: t_def Terrain_eval)
  have upd: "Terrain_update (- 1500) (1 / 2) True t = Inr t'"
    by (simp add: t_def t'_def Terrain_eval)
  have idx: "map chunkIndex (terrainChunks t) = [0, 1, 2, 3, 4, 5]"
    "map chunkIndex (terrainChunks t') = [1, 2, 3, 4, 5, 6]"
    by (simp_all add: t_def t'_def)
  from Terrain_chunk_range[OF run] upd
  have "map chunkIndex (terrainChunks t) =
           map (\<lambda>k. currentChunkIndex t + int k) [0..<length (terrainChunks t)]
     \<and> (length (terrainChunks t) = visibleChunks t
          \<or> length (terrainChunks t) = visibleChunks t + 1)
     \<and> (\<exists>new d. terrainChunks t' = drop d (terrainChunks t @ new)
               \<and> currentChunkIndex t' = currentChunkIndex t + int d
               \<and> d \<le> 1 \<and> length new \<le> 1
               \<and> map chunkIndex new =
                   map (\<lambda>k. currentChunkIndex t + int (length (terrainChunks t)) + int k)
                       [0..<length new])"
    by blast
  then show ?thesis
    by (intro exI[of _ t] exI[of _ t'] conjI run upd idx) simp_all
qed

text \<open>
  The claim as the specification states it asks for exactly \<open>visibleChunks\<close> chunks.
  A player who skis through \<open>z = -1000, -1500, -2000, -2500\<close> has six chunks after each
  of these ticks; after the fourth they are the chunks 3 to 8, with
  \<open>visibleChunks = 5\<close>.
\<close>

theorem Terrain_chunk_count_counterexample:
  "map chunkIndex (terrainChunks (projr
      (Terrain_ticks [(- 1000, 1 / 2, True), (- 1500, 1 / 2, True),
                      (- 2000, 1 / 2, True), (- 2500, 1 / 2, True)]
         (Terrain_new (always (1 / 2)) (always True)))))
     = [3, 4, 5, 6, 7, 8]
   \<and> visibleChunks (projr
      (Terrain_ticks [(- 1000, 1 / 2, True), (- 1500, 1 / 2, True),
                      (- 2000, 1 / 2, True), (- 2500, 1 / 2, True)]
         (Terrain_new (always (1 / 2)) (always True)))) = 5
   \<and> length (terrainChunks (projr
      (Terrain_ticks [(- 1000, 1 / 2, True), (- 1500, 1 / 2, True),
                      (- 2000, 1 / 2, True), (- 2500, 1 / 2, True)]
         (Terrain_new (always (1 / 2)) (always True))))) \<noteq> 5"
  by (simp add: Terrain_eval)

section \<open>Player controller: lateral input, damage, death\<close>

lemma impulses_append: "impulses (cs @ ds) = impulses cs @ impulses ds"
  by (induction cs rule: impulses.induct) simp_all

lemma bodyCalls_applyControls:
  "bodyCalls (applyControls dt s) =
     bodyCalls s @ (if lateralForce dt s \<noteq> 0
                    then [ApplyImpulse \<lparr>vx = lateralForce dt s, vy = 0, vz = 0\<rparr> zero3]
                    else [])"
  by (simp add: applyControls_def Let_def)

text \<open>
  Claim C2, as the code has it. When both lateral flags are set, \<open>applyControls\<close> takes
  the branch of the left key: it applies the impulse \<open>(-lateralSpeed * deltaTime, 0, 0)\<close>,
  the one of the left key alone, and applies no impulse only when that product is zero.
\<close>

theorem applyControls_both_flags:
  assumes "moveLeft s" and "moveRight s"
  shows "lateralForce dt s = - lateralSpeed s * dt
       \<and> lateralForce dt s = lateralForce dt (s\<lparr>moveRight := False\<rparr>)
       \<and> impulses (bodyCalls (applyControls dt s)) =
           impulses (bodyCalls s) @
             (if lateralSpeed s * dt = 0 then []
              else [(\<lparr>vx = - lateralSpeed s * dt, vy = 0, vz = 0\<rparr>, zero3)])"
  using assms
  by (simp add: bodyCalls_applyControls impulses_append lateralForce_def)

theorem applyControls_both_flags_witness:
  "moveLeft (Player_new\<lparr>moveLeft := True, moveRight := True\<rparr>)
   \<and> moveRight (Player_new\<lparr>moveLeft := True, moveRight := True\<rparr>)
   \<and> lateralForce (1 / 10) (Player_new\<lparr>moveLeft := True, moveRight := True\<rparr>) = - 8
   \<and> impulses (bodyCalls (applyControls (1 / 10)
         (Player_new\<lparr>moveLeft := True, moveRight := True\<rparr>))) =
       [(\<lparr>vx = - 8, vy = 0, vz = 0\<rparr>, zero3)]"
  using applyControls_both_flags
          [of "Player_new\<lparr>moveLeft := True, moveRight := True\<rparr>" "1 / 10"]
  by (simp add: Player_new_def)

text \<open>
  The claim as the specification states it: no lateral impulse when both flags are set.
  A living player with both flags set, updated with \<open>deltaTime = 0.1\<close> in the middle of
  the slope, receives the impulse \<open>(-8, 0, 0)\<close>.
\<close>

theorem lateral_impulse_counterexample:
  "impulses (bodyCalls (Player_update (1 / 10)
       \<lparr>bodyPosition = \<lparr>vx = 0, vy = 5, vz = 0\<rparr>, rayHasHit = False, rayDistance = 0\<rparr>
       (always (1 / 2))
       (Player_new\<lparr>moveLeft := True, moveRight := True\<rparr>)))
     = [(\<lparr>vx = - 8, vy = 0, vz = 0\<rparr>, zero3)]"
  by (simp add: Player_update_def Player_new_def applyControls_def lateralForce_def
        updatePhysics_def checkTerrainCollision_def Let_def)

text \<open>
  Claim C6, as the code has it. A call of \<open>takeDamage\<close> with a non-negative amount
  leaves the health no greater than before, hence at most 100 when it was; the health is
  not clamped at 0, but a player whose health is not positive after the call is dead.
\<close>

theorem takeDamage_health:
  assumes "0 \<le> amount" and "health s \<le> 100"
  shows "health (takeDamage amount rs s) = health s - amount
       \<and> health (takeDamage amount rs s) \<le> health s
       \<and> health (takeDamage amount rs s) \<le> 100
       \<and> (0 < health (takeDamage amount rs s) \<or> isDead (takeDamage amount rs s))"
  using assms
  by (auto simp: takeDamage_def die_def applyRagdollEffect_def Let_def)

theorem takeDamage_health_witness:
  "(0::real) \<le> 45 \<and> health (Player_reset Player_new) \<le> 100
   \<and> health (takeDamage 45 (always (1 / 2)) (Player_reset Player_new)) = 55
   \<and> health (takeDamage 45 (always (1 / 2)) (Player_reset Player_new))
       \<le> health (Player_reset Player_new)
   \<and> health (takeDamage 45 (always (1 / 2)) (Player_reset Player_new)) \<le> 100
   \<and> 0 < health (takeDamage 45 (always (1 / 2)) (Player_reset Player_new))"
  using takeDamage_health [of 45 "Player_reset Player_new" "always (1 / 2)"]
  by (simp add: Player_reset_def Player_new_def)

text \<open>
  The claim as the specification states it keeps the health in \<open>[0, 100]\<close>. Three hits
  of 45 (an ice spike at full speed: \<open>300 * 1.5 * 0.1\<close>) on a fresh player, the third
  one on a living player with health 10, leave the health at \<open>-35\<close>.
\<close>

theorem takeDamage_health_counterexample:
  "health (takeDamage 45 (always (1 / 2))
            (takeDamage 45 (always (1 / 2))
               (takeDamage 45 (always (1 / 2)) (Player_reset Player_new)))) = - 35
   \<and> \<not> isDead (takeDamage 45 (always (1 / 2))
               (takeDamage 45 (always (1 / 2)) (Player_reset Player_new)))"
  by (simp add: takeDamage_def die_def applyRagdollEffect_def Player_reset_def
        Player_new_def Let_def)

text \<open>
  Claim C7. For a living player, two calls of \<open>die\<close> in succession dispatch exactly one
  \<open>player-died\<close> event, and the second call changes nothing: the state after it,
  with health, dead flag, body calls and events, is the state after the first.
\<close>

theorem die_idempotent:
  assumes "\<not> isDead s"
  shows "dispatched (die rs2 (die rs1 s)) = dispatched s @ [PlayerDied]
       \<and> die rs2 (die rs1 s) = die rs1 s
       \<and> isDead (die rs1 s)
       \<and> health (die rs2 (die rs1 s)) = health s"
  using assms
  by (simp add: die_def applyRagdollEffect_def Let_def)

theorem die_idempotent_witness:
  "\<not> isDead Player_new
   \<and> dispatched (die (always (1 / 4)) (die (always (1 / 2)) Player_new)) = [PlayerDied]
   \<and> die (always (1 / 4)) (die (always (1 / 2)) Player_new) = die (always (1 / 2)) Player_new
   \<and> isDead (die (always (1 / 2)) Player_new)
   \<and> health (die (always (1 / 4)) (die (always (1 / 2)) Player_new)) = 100"
proof -
  have alive: "\<not> isDead Player_new"
    and init: "dispatched Player_new = []" "health Player_new = 100"
    by (simp_all add: Player_new_def)
  have "dispatched (die (always (1 / 4)) (die (always (1 / 2)) Player_new)) = [PlayerDied]
   \<and> die (always (1 / 4)) (die (always (1 / 2)) Player_new) = die (always (1 / 2)) Player_new
   \<and> isDead (die (always (1 / 2)) Player_new)
   \<and> health (die (always (1 / 4)) (die (always (1 / 2)) Player_new)) = 100"
    by (rule die_idempotent [OF alive, of "always (1 / 4)" "always (1 / 2)",
          unfolded init append_Nil])
  with alive show ?thesis by blast
qed

text \<open>
  Claim C10. Every update of a dead player returns the player unchanged: speed, health,
  flags, the calls made on the body and the events are those before, however many
  updates follow.
\<close>

theorem dead_player_update_noop:
  assumes "isDead s"
  shows "Player_update dt env rs s = s \<and> Player_updates ins s = s"
proof -
  have one: "Player_update dt' env' rs' s = s" for dt' env' rs'
    using assms by (simp add: Player_update_def)
  have "Player_updates ins s = s"
  proof (induction ins)
    case Nil
    show ?case by simp
  next
    case (Cons a ins)
    obtain dt' env' rs' where "a = (dt', env', rs')" by (cases a)
    with Cons one show ?case by simp
  qed
  with one show ?thesis by simp
qed

theorem dead_player_update_noop_witness:
  "isDead (die (always (1 / 2)) Player_new)
   \<and> Player_update (1 / 10)
       \<lparr>bodyPosition = \<lparr>vx = 600, vy = 5, vz = 0\<rparr>, rayHasHit = True, rayDistance = 0\<rparr>
       (always (1 / 4)) (die (always (1 / 2)) Player_new)
     = die (always (1 / 2)) Player_new
   \<and> Player_updates
       [(1 / 10, \<lparr>bodyPosition = \<lparr>vx = 600, vy = 5, vz = 0\<rparr>, rayHasHit = True, rayDistance = 0\<rparr>,
         always (1 / 4)),
        (1 / 10, \<lparr>bodyPosition = \<lparr>vx = 0, vy = 5, vz = 0\<rparr>, rayHasHit = False, rayDistance = 0\<rparr>,
         always (1 / 4))]
       (die (always (1 / 2)) Player_new)
     = die (always (1 / 2)) Player_new"
proof -
  have dead: "isDead (die (always (1 / 2)) Player_new)"
    by (simp add: die_def applyRagdollEffect_def Player_new_def Let_def)
  from dead dead_player_update_noop [OF dead] show ?thesis
    by blast
qed

section \<open>Difficulty curve\<close>

lemma updateDifficulty_fields:
  "difficultyLevel (updateDifficulty pz s) = 1 + \<lfloor>\<bar>pz\<bar> / 500\<rfloor>"
  "obstacleSpawnFrequency (updateDifficulty pz s) =
     2 / 10 + real_of_int (1 + \<lfloor>\<bar>pz\<bar> / 500\<rfloor>) * (5 / 100)"
  "maxObstaclesOnScreen (updateDifficulty pz s) = 20 + (1 + \<lfloor>\<bar>pz\<bar> / 500\<rfloor>) * 2"
  "obstacleSpread (updateDifficulty pz s) = 30 + real_of_int (1 + \<lfloor>\<bar>pz\<bar> / 500\<rfloor>) * 5"
  by (simp_all add: updateDifficulty_def Let_def)

lemma spec_level_mono: "d1 \<le> d2 \<Longrightarrow> spec_level d1 \<le> spec_level d2"
  unfolding spec_level_def by (simp add: floor_mono divide_right_mono)

text \<open>
  Claim C8. \<open>updateDifficulty\<close> sets the level and the tunables to the specification's
  formulas of the distance \<open>|z|\<close>; \<open>generateChunk\<close> makes the chunk of ice exactly
  when its random number is below the specification's ice probability of the chunk
  index, which is the \<open>iceFactor\<close> it computes; the level is monotone in the distance,
  and every tunable is monotone in its argument.
\<close>

theorem difficulty_curve:
  assumes "d1 < d2" and "l1 \<le> l2" and "i1 \<le> i2"
  shows "difficultyLevel (updateDifficulty pz s) = spec_level \<bar>pz\<bar>
       \<and> obstacleSpawnFrequency (updateDifficulty pz s) = spec_spawnFrequency (spec_level \<bar>pz\<bar>)
       \<and> maxObstaclesOnScreen (updateDifficulty pz s) = spec_maxObstacles (spec_level \<bar>pz\<bar>)
       \<and> obstacleSpread (updateDifficulty pz s) = spec_obstacleSpread (spec_level \<bar>pz\<bar>)
       \<and> iceFactor idx = spec_iceProbability idx
       \<and> chunkMaterial (fst (generateChunk r ok idx t)) =
           (if r < spec_iceProbability idx then Ice else Snow)
       \<and> chunkIndex (fst (generateChunk r ok idx t)) = idx
       \<and> spec_level d1 \<le> spec_level d2
       \<and> spec_spawnFrequency l1 \<le> spec_spawnFrequency l2
       \<and> spec_maxObstacles l1 \<le> spec_maxObstacles l2
       \<and> spec_obstacleSpread l1 \<le> spec_obstacleSpread l2
       \<and> spec_iceProbability i1 \<le> spec_iceProbability i2"
proof -
  have code: "difficultyLevel (updateDifficulty pz s) = spec_level \<bar>pz\<bar>"
    "obstacleSpawnFrequency (updateDifficulty pz s) = spec_spawnFrequency (spec_level \<bar>pz\<bar>)"
    "maxObstaclesOnScreen (updateDifficulty pz s) = spec_maxObstacles (spec_level \<bar>pz\<bar>)"
    "obstacleSpread (updateDifficulty pz s) = spec_obstacleSpread (spec_level \<bar>pz\<bar>)"
    "iceFactor idx = spec_iceProbability idx"
    by (simp_all add: updateDifficulty_fields spec_level_def spec_spawnFrequency_def
          spec_maxObstacles_def spec_obstacleSpread_def iceFactor_def spec_iceProbability_def)
  have lvl: "spec_level d1 \<le> spec_level d2"
    using assms(1) by (simp add: spec_level_mono)
  have tun: "spec_spawnFrequency l1 \<le> spec_spawnFrequency l2"
    "spec_maxObstacles l1 \<le> spec_maxObstacles l2"
    "spec_obstacleSpread l1 \<le> spec_obstacleSpread l2"
    using assms(2)
    by (simp_all add: spec_spawnFrequency_def spec_maxObstacles_def spec_obstacleSpread_def)
  have ice: "spec_iceProbability i1 \<le> spec_iceProbability i2"
    using assms(3) by (simp add: spec_iceProbability_def min_def)
  have chunk: "chunkMaterial (fst (generateChunk r ok idx t)) =
           (if r < spec_iceProbability idx then Ice else Snow)"
    "chunkIndex (fst (generateChunk r ok idx t)) = idx"
    by (simp_all add: generateChunk_def Let_def code(5))
  from code chunk lvl tun ice show ?thesis by simp
qed

theorem difficulty_curve_witness:
  "(499::real) < 500 \<and> (1::int) \<le> 2 \<and> (3::int) \<le> 9
   \<and> difficultyLevel (updateDifficulty (- 1250) ObstacleManager_new) = 3
   \<and> obstacleSpawnFrequency (updateDifficulty (- 1250) ObstacleManager_new) = 35 / 100
   \<and> maxObstaclesOnScreen (updateDifficulty (- 1250) ObstacleManager_new) = 26
   \<and> obstacleSpread (updateDifficulty (- 1250) ObstacleManager_new) = 45
   \<and> iceFactor 3 = 3 / 10
   \<and> chunkMaterial (fst (generateChunk (1 / 4) True 3 (Terrain_new (always (1 / 2)) (always True))))
       = Ice
   \<and> chunkIndex (fst (generateChunk (1 / 4) True 3 (Terrain_new (always (1 / 2)) (always True))))
       = 3
   \<and> spec_level 499 \<le> spec_level 500
   \<and> spec_spawnFrequency 1 \<le> spec_spawnFrequency 2
   \<and> spec_maxObstacles 1 \<le> spec_maxObstacles 2
   \<and> spec_obstacleSpread 1 \<le> spec_obstacleSpread 2
   \<and> spec_iceProbability 3 \<le> spec_iceProbability 9"
proof -
  have vals: "spec_level \<bar>- 1250\<bar> = 3" "spec_spawnFrequency 3 = 35 / 100"
    "spec_maxObstacles 3 = 26" "spec_obstacleSpread 3 = 45" "spec_iceProbability 3 = 3 / 10"
    by (simp_all add: spec_level_def spec_spawnFrequency_def spec_maxObstacles_def
          spec_obstacleSpread_def spec_iceProbability_def)
  have h: "(499::real) < 500" "(1::int) \<le> 2" "(3::int) \<le> 9" by simp_all
  from difficulty_curve [OF h, of "- 1250" ObstacleManager_new 3 "1 / 4" True
         "Terrain_new (always (1 / 2)) (always True)"]
  show ?thesis unfolding vals using h by simp
qed

section \<open>Fractal noise\<close>

lemma generateNoise_loop_stop:
  "\<not> i < octaves \<Longrightarrow>
   generateNoise_loop x y octaves persistence lacunarity scale i (tot, fr, am, mv) = (tot, mv)"
  by (simp add: generateNoise_loop.simps)

text \<open>
  Claim C3, as the code has it. \<open>generateNoise\<close> validates nothing: with
  \<open>octaves \<le> 0\<close> the loop body never runs, the function divides \<open>0\<close> by \<open>0\<close> and
  returns \<open>NaN\<close> normally, whatever the other arguments are.
\<close>

theorem generateNoise_no_octaves:
  assumes "octaves \<le> 0"
  shows "generateNoise x y octaves persistence lacunarity scale = Inr NaN"
  using assms
  by (simp add: generateNoise_def generateNoise_loop_stop js_div_def)

theorem generateNoise_no_octaves_witness:
  "(- 3 :: int) \<le> 0 \<and> generateNoise 120 40 (- 3) (65 / 100) 2 300 = Inr NaN"
  using generateNoise_no_octaves [of "- 3" 120 40 "65 / 100" 2 300]
  by simp

text \<open>
  The claim as the specification states it: a call with \<open>octaves \<le> 0\<close> fails with an
  error. The call \<open>generateNoise(0, 0, 0, 0.5, 2.0, 100.0)\<close> completes and returns
  \<open>NaN\<close>.
\<close>

theorem generateNoise_rejection_counterexample:
  "generateNoise 0 0 0 (1 / 2) 2 100 = Inr NaN \<and> \<not> isl (generateNoise 0 0 0 (1 / 2) 2 100)"
  by (simp add: generateNoise_def generateNoise_loop_stop js_div_def)

text \<open>
  The entries of the table and the gradients that the sample at \<open>(0.5, 0.5, 0)\<close> reads.
\<close>

lemma p_values:
  "p 0 = 151" "p (Suc 0) = 160" "p 151 = 17" "p 152 = 182" "p 160 = 119" "p 161 = 248"
  "p 17 = 36" "p 18 = 103" "p 119 = 86" "p 120 = 164"
  "p 182 = 108" "p 183 = 110" "p 248 = 128" "p 249 = 195"
  by (simp_all add: p_def permutation_def)

lemma cell_values: "cell (1 / 2) = 0" "cell 0 = 0"
  by (simp_all add: cell_def)

lemma grad_values:
  "grad 36 x y z = x + z" "grad 86 x y z = x - z"
  "grad 108 x y z = y + x" "grad 128 x y z = x + y"
  "grad 103 x y z = - x - z" "grad 164 x y z = x + z"
  "grad 110 x y z = y - x" "grad 195 x y z = - x - y"
  by (simp_all add: grad_def Let_def)

lemma noise_half_half: "noise (1 / 2) (1 / 2) 0 = - (1 / 4)"
  by (simp add: noise_def cell_values Let_def p_values grad_values fade_def lerp_def)

text \<open>
  Claim C4 at the call \<open>generateNoise(50, 50, 1, 0.5, 2.0, 100.0)\<close>: one octave, the
  sample \<open>noise(0.5, 0.5, 0) = -0.25\<close> divided by the amplitude sum \<open>1\<close>. The result is
  \<open>-0.25\<close>, below the range \<open>[0, 1]\<close> that the claim and the comments of the function
  (\<^emph>\<open>Normalize the result to 0-1\<close>) give. All the numbers of this call are binary
  fractions, so the binary64 computation is the exact one.
\<close>

theorem generateNoise_below_zero:
  "generateNoise 50 50 1 (1 / 2) 2 100 = Inr (Num (- (1 / 4)))"
  by (simp add: generateNoise_def generateNoise_loop.simps noise_half_half js_div_def)

section \<open>Avoided-obstacle counter\<close>

lemma checkPassed_loop_result:
  "checkPassed_loop pz obs n =
     (map (\<lambda>ob. if passedNow pz ob then ob\<lparr>isAvoidedCounted := True\<rparr> else ob) obs,
      n + length (filter (passedNow pz) obs))"
  by (induction obs arbitrary: n) (simp_all add: passedNow_def)

lemma countedBy_alt: "countedBy pz s = map oid (filter (passedNow pz) (activeObstacles s))"
  by (simp add: countedBy_def passedNow_def[abs_def])

lemma checkObstaclesPassed_fields:
  "obstaclesAvoided (checkObstaclesPassed pz s) = obstaclesAvoided s + length (countedBy pz s)"
  "activeObstacles (checkObstaclesPassed pz s) =
     map (\<lambda>ob. if passedNow pz ob then ob\<lparr>isAvoidedCounted := True\<rparr> else ob) (activeObstacles s)"
  by (simp_all add: checkObstaclesPassed_def checkPassed_loop_result countedBy_alt)

lemma removeDistant_loop_avoided:
  "obstaclesAvoided (snd (removeDistant_loop pz obs s)) = obstaclesAvoided s"
  by (induction obs arbitrary: s) (simp_all add: recycleObstacle_def split_beta)

lemma removeDistantObstacles_avoided:
  "obstaclesAvoided (removeDistantObstacles pz s) = obstaclesAvoided s"
  using removeDistant_loop_avoided[of pz "activeObstacles s" s]
  by (simp add: removeDistantObstacles_def split_beta)

lemma updateDifficulty_avoided:
  "obstaclesAvoided (updateDifficulty pz s) = obstaclesAvoided s"
  by (simp add: updateDifficulty_def Let_def)

lemma createObstacle_avoided:
  "obstaclesAvoided (snd (createObstacle ty x z s)) = obstaclesAvoided s"
  by (simp add: createObstacle_def getObstacleFromPool_def Let_def split_beta
           split: option.splits)

lemma createObstacle_flag:
  "\<not> isAvoidedCounted (fst (createObstacle ty x z s))"
  by (simp add: createObstacle_def Let_def split_beta)

lemma generateObstacle_avoided:
  "generateObstacle pz rnd s = Inr s' \<Longrightarrow> obstaclesAvoided s' = obstaclesAvoided s"
  using createObstacle_avoided
  by (auto simp: generateObstacle_def Let_def split_beta split: if_splits)

lemma ObstacleManager_update_avoided:
  assumes "ObstacleManager_update pz rnd s = Inr s'"
  shows "obstaclesAvoided s \<le> obstaclesAvoided s'"
proof -
  let ?s2 = "removeDistantObstacles pz (updateDifficulty pz s)"
  from assms obtain s3 where
    g: "(if int (length (activeObstacles ?s2)) < maxObstaclesOnScreen ?s2
         then generateObstacle pz rnd ?s2 else Inr ?s2) = Inr s3"
    and s': "s' = checkObstaclesPassed pz s3"
    by (auto simp: ObstacleManager_update_def Let_def split: sum.splits)
  have "obstaclesAvoided s3 = obstaclesAvoided ?s2"
    using g generateObstacle_avoided by (auto split: if_splits)
  then have "obstaclesAvoided s3 = obstaclesAvoided s"
    by (simp add: removeDistantObstacles_avoided updateDifficulty_avoided)
  then show ?thesis
    by (simp add: s' checkObstaclesPassed_fields)
qed

lemma ObstacleManager_ticks_avoided:
  "ObstacleManager_ticks ins s = Inr s' \<Longrightarrow> obstaclesAvoided s \<le> obstaclesAvoided s'"
proof (induction ins arbitrary: s)
  case Nil
  then show ?case by simp
next
  case (Cons a ins)
  obtain pz rnd where a: "a = (pz, rnd)" by (cases a)
  from Cons.prems obtain s1 where u: "ObstacleManager_update pz rnd s = Inr s1"
    and rest: "ObstacleManager_ticks ins s1 = Inr s'"
    by (auto simp: a split: sum.splits)
  from ObstacleManager_update_avoided[OF u] Cons.IH[OF rest] show ?case by simp
qed

lemma countedBy_after_check:
  "countedBy pz2 (checkObstaclesPassed pz1 s) =
     map oid (filter (\<lambda>ob. \<not> isAvoidedCounted ob \<and> \<not> vz (position ob) > pz1 + 5
                            \<and> vz (position ob) > pz2 + 5) (activeObstacles s))"
proof -
  have "map oid (filter (passedNow pz2)
          (map (\<lambda>ob. if passedNow pz1 ob then ob\<lparr>isAvoidedCounted := True\<rparr> else ob) obs))
      = map oid (filter (\<lambda>ob. \<not> isAvoidedCounted ob \<and> \<not> vz (position ob) > pz1 + 5
                            \<and> vz (position ob) > pz2 + 5) obs)" for obs
    by (induction obs) (auto simp: passedNow_def)
  then show ?thesis
    by (simp add: countedBy_alt checkObstaclesPassed_fields)
qed

lemma checkObstaclesPassed_idem:
  "checkObstaclesPassed pz (checkObstaclesPassed pz s) = checkObstaclesPassed pz s"
proof -
  have c: "countedBy pz (checkObstaclesPassed pz s) = []"
    by (simp add: countedBy_after_check)
  have "filter (passedNow pz) (activeObstacles (checkObstaclesPassed pz s)) = []"
    using c by (simp add: countedBy_alt)
  then have m: "map (\<lambda>ob. if passedNow pz ob then ob\<lparr>isAvoidedCounted := True\<rparr> else ob)
            (activeObstacles (checkObstaclesPassed pz s)) = activeObstacles (checkObstaclesPassed pz s)"
    by (simp add: filter_empty_conv map_idI)
  show ?thesis
    apply (subst (1) checkObstaclesPassed_def)
    apply (simp add: checkPassed_loop_result m)
    using c by (simp add: countedBy_alt)
qed

lemma removeDistant_loop_kept:
  "fst (removeDistant_loop pz obs s) = filter (\<lambda>ob. \<not> vz (position ob) > pz + 50) obs"
  by (induction obs arbitrary: s) (simp_all add: split_beta)

lemma removeDistant_loop_nextZ:
  "nextObstacleZ (snd (removeDistant_loop pz obs s)) = nextObstacleZ s"
  by (induction obs arbitrary: s) (simp_all add: recycleObstacle_def split_beta)

lemma removeDistantObstacles_active:
  "activeObstacles (removeDistantObstacles pz s) =
     filter (\<lambda>ob. \<not> vz (position ob) > pz + 50) (activeObstacles s)"
  using removeDistant_loop_kept[of pz "activeObstacles s" s]
  by (simp add: removeDistantObstacles_def split_beta)

lemma removeDistantObstacles_nextZ:
  "nextObstacleZ (removeDistantObstacles pz s) = nextObstacleZ s"
  using removeDistant_loop_nextZ[of pz "activeObstacles s" s]
  by (simp add: removeDistantObstacles_def split_beta)

lemma updateDifficulty_active:
  "activeObstacles (updateDifficulty pz s) = activeObstacles s"
  "nextObstacleZ (updateDifficulty pz s) = nextObstacleZ s"
  by (simp_all add: updateDifficulty_def Let_def)

lemma createObstacle_active:
  "activeObstacles (snd (createObstacle ty x z s)) = activeObstacles s"
  by (simp add: createObstacle_def getObstacleFromPool_def Let_def split_beta
           split: option.splits)

lemma generateObstacle_active:
  assumes "generateObstacle pz rnd s = Inr s'"
  shows "\<exists>new. activeObstacles s' = activeObstacles s @ new
           \<and> (new = [] \<or> (\<exists>ty x. new = [fst (createObstacle ty x (nextObstacleZ s) s)]))"
proof (cases "rSpawn rnd > obstacleSpawnFrequency s
            \<or> \<bar>pz - nextObstacleZ s\<bar> < minDistanceBetweenObstacles s")
  case True
  then have "generateObstacle pz rnd s = Inr s"
    by (auto simp: generateObstacle_def Let_def)
  with assms have "s' = s" by simp
  then show ?thesis by simp
next
  case False
  define idx where "idx =
     (if rEscalate rnd < (2 / 10) * real_of_int (difficultyLevel s)
      then min (\<lfloor>rType rnd * real_of_int (int (length obstacleTypesData))\<rfloor> + 1)
               (int (length obstacleTypesData) - 1)
      else \<lfloor>rType rnd * real_of_int (int (length obstacleTypesData))\<rfloor>)"
  define c where "c = createObstacle (obstacleTypesData ! nat idx)
                        ((rX rnd * 2 - 1) * obstacleSpread s) (nextObstacleZ s) s"
  have g: "generateObstacle pz rnd s =
     (if 0 \<le> idx \<and> idx < int (length obstacleTypesData)
      then Inr ((snd c)\<lparr>activeObstacles := activeObstacles (snd c) @ [fst c],
                 nextObstacleZ := nextObstacleZ (snd c)
                    - minDistanceBetweenObstacles (snd c) * (1 + rSpacing rnd * (5 / 10))\<rparr>)
      else Inl TypeError)"
  proof -
    from False have n1: "\<not> rSpawn rnd > obstacleSpawnFrequency s"
      and n2: "\<not> \<bar>pz - nextObstacleZ s\<bar> < minDistanceBetweenObstacles s" by simp_all
    show ?thesis
      unfolding generateObstacle_def Let_def idx_def c_def case_prod_beta
      by (simp only: n1 n2 if_False)
  qed
  from g assms have "s' = (snd c)\<lparr>activeObstacles := activeObstacles (snd c) @ [fst c],
                 nextObstacleZ := nextObstacleZ (snd c)
                    - minDistanceBetweenObstacles (snd c) * (1 + rSpacing rnd * (5 / 10))\<rparr>"
    by (simp split: if_splits)
  then have "activeObstacles s' = activeObstacles (snd c) @ [fst c]" by simp
  then have "activeObstacles s' = activeObstacles s @ [fst c]"
    by (simp add: c_def createObstacle_active)
  then show ?thesis unfolding c_def by blast
qed

lemma ObstacleManager_update_tick:
  assumes "ObstacleManager_update pz rnd s = Inr s'"
  shows "\<exists>new. (new = [] \<or> (\<exists>ty x. new =
                 [fst (createObstacle ty x (nextObstacleZ s)
                         (removeDistantObstacles pz (updateDifficulty pz s)))]))
           \<and> activeObstacles s' =
               map (\<lambda>ob. if passedNow pz ob then ob\<lparr>isAvoidedCounted := True\<rparr> else ob)
                 (filter (\<lambda>ob. \<not> vz (position ob) > pz + 50) (activeObstacles s) @ new)
           \<and> obstaclesAvoided s' = obstaclesAvoided s +
               length (filter (passedNow pz)
                 (filter (\<lambda>ob. \<not> vz (position ob) > pz + 50) (activeObstacles s) @ new))"
proof -
  let ?s2 = "removeDistantObstacles pz (updateDifficulty pz s)"
  let ?kept = "filter (\<lambda>ob. \<not> vz (position ob) > pz + 50) (activeObstacles s)"
  from assms obtain s3 where
    g: "(if int (length (activeObstacles ?s2)) < maxObstaclesOnScreen ?s2
         then generateObstacle pz rnd ?s2 else Inr ?s2) = Inr s3"
    and s': "s' = checkObstaclesPassed pz s3"
    by (auto simp: ObstacleManager_update_def Let_def split: sum.splits)
  have a2: "activeObstacles ?s2 = ?kept"
    by (simp add: removeDistantObstacles_active updateDifficulty_active)
  have z2: "nextObstacleZ ?s2 = nextObstacleZ s"
    by (simp add: removeDistantObstacles_nextZ updateDifficulty_active)
  have v2: "obstaclesAvoided ?s2 = obstaclesAvoided s"
    by (simp add: removeDistantObstacles_avoided updateDifficulty_avoided)
  have "\<exists>new. activeObstacles s3 = activeObstacles ?s2 @ new
           \<and> (new = [] \<or> (\<exists>ty x. new = [fst (createObstacle ty x (nextObstacleZ ?s2) ?s2)]))"
  proof (cases "int (length (activeObstacles ?s2)) < maxObstaclesOnScreen ?s2")
    case True
    with g have "generateObstacle pz rnd ?s2 = Inr s3" by simp
    then show ?thesis by (rule generateObstacle_active)
  next
    case False
    with g have "s3 = ?s2" by simp
    then show ?thesis by simp
  qed
  then obtain new where n1: "activeObstacles s3 = ?kept @ new"
    and n2: "new = [] \<or> (\<exists>ty x. new = [fst (createObstacle ty x (nextObstacleZ s) ?s2)])"
    unfolding a2 z2 by blast
  have v3: "obstaclesAvoided s3 = obstaclesAvoided s"
    using g generateObstacle_avoided v2 by (auto split: if_splits)
  have "activeObstacles s' =
      map (\<lambda>ob. if passedNow pz ob then ob\<lparr>isAvoidedCounted := True\<rparr> else ob) (?kept @ new)"
    by (simp only: s' checkObstaclesPassed_fields n1)
  moreover have "obstaclesAvoided s' = obstaclesAvoided s + length (filter (passedNow pz) (?kept @ new))"
    by (simp only: s' checkObstaclesPassed_fields countedBy_alt n1 v3 length_map)
  ultimately show ?thesis using n2 by blast
qed

lemma flagged_kept_tick:
  assumes "ObstacleManager_update pz rnd s = Inr s'"
    and "ob \<in> set (activeObstacles s)" and "isAvoidedCounted ob"
    and "\<not> vz (position ob) > pz + 50"
  shows "ob \<in> set (activeObstacles s')"
proof -
  from ObstacleManager_update_tick[OF assms(1)] obtain new where
    a: "activeObstacles s' =
         map (\<lambda>ob. if passedNow pz ob then ob\<lparr>isAvoidedCounted := True\<rparr> else ob)
           (filter (\<lambda>ob. \<not> vz (position ob) > pz + 50) (activeObstacles s) @ new)"
    by blast
  have k: "ob \<in> set (filter (\<lambda>ob. \<not> vz (position ob) > pz + 50) (activeObstacles s) @ new)"
    using assms(2,4) by simp
  have "\<not> passedNow pz ob" using assms(3) by (simp add: passedNow_def)
  then have "(\<lambda>ob. if passedNow pz ob then ob\<lparr>isAvoidedCounted := True\<rparr> else ob) ob = ob"
    by simp
  moreover have "(\<lambda>ob. if passedNow pz ob then ob\<lparr>isAvoidedCounted := True\<rparr> else ob) ob
      \<in> (\<lambda>ob. if passedNow pz ob then ob\<lparr>isAvoidedCounted := True\<rparr> else ob) `
        set (filter (\<lambda>ob. \<not> vz (position ob) > pz + 50) (activeObstacles s) @ new)"
    using k by (rule imageI)
  ultimately show ?thesis unfolding a set_map by simp
qed

lemma flagged_kept_ticks:
  assumes "ObstacleManager_ticks ins s = Inr s'"
    and "ob \<in> set (activeObstacles s)" and "isAvoidedCounted ob"
    and "\<forall>i \<in> set ins. \<not> vz (position ob) > fst i + 50"
  shows "ob \<in> set (activeObstacles s')"
  using assms
proof (induction ins arbitrary: s)
  case Nil
  then show ?case by simp
next
  case (Cons a ins)
  obtain pz rnd where a: "a = (pz, rnd)" by (cases a)
  from Cons.prems(1) obtain s1 where u: "ObstacleManager_update pz rnd s = Inr s1"
    and rest: "ObstacleManager_ticks ins s1 = Inr s'"
    by (auto simp: a split: sum.splits)
  have "\<not> vz (position ob) > pz + 50" using Cons.prems(4) a by simp
  from flagged_kept_tick[OF u Cons.prems(2,3) this]
  have "ob \<in> set (activeObstacles s1)" .
  from Cons.IH[OF rest this Cons.prems(3)] Cons.prems(4) show ?case by simp
qed

text \<open>
  Claim C5, as the code has it. The counter never decreases over any run of ticks.
  Within a tick, the obstacles that are not removed keep their state until the check, and
  at most one obstacle is added, by \<open>createObstacle\<close>, which clears its flag, also when
  it takes the object out of the pool; the check then counts exactly the obstacles of
  this list whose flag is unset and which lie more than 5 behind the player, and sets
  their flags. So an active obstacle whose flag is set is not counted and stays as it
  is, over any run of ticks, until it is removed: an obstacle is counted at most once
  per activation, not once per instance. A call of \<open>checkObstaclesPassed\<close> alone adds
  the number of obstacles it counts, a later call counts only obstacles that the earlier
  one did not, and a repeated call changes nothing.
\<close>

theorem avoided_counter:
  assumes "ObstacleManager_ticks ins s = Inr s'"
  shows "getObstaclesAvoided s \<le> getObstaclesAvoided s'
       \<and> (\<forall>ob \<in> set (activeObstacles s).
             isAvoidedCounted ob \<and> (\<forall>i \<in> set ins. \<not> vz (position ob) > fst i + 50)
             \<longrightarrow> ob \<in> set (activeObstacles s'))
       \<and> (\<forall>pz rnd s''. ObstacleManager_update pz rnd s' = Inr s'' \<longrightarrow>
             (\<exists>new. (new = [] \<or> (\<exists>ty x. new =
                        [fst (createObstacle ty x (nextObstacleZ s')
                                (removeDistantObstacles pz (updateDifficulty pz s')))]))
                \<and> activeObstacles s'' =
                    map (\<lambda>ob. if \<not> isAvoidedCounted ob \<and> vz (position ob) > pz + 5
                              then ob\<lparr>isAvoidedCounted := True\<rparr> else ob)
                      (filter (\<lambda>ob. \<not> vz (position ob) > pz + 50) (activeObstacles s') @ new)
                \<and> getObstaclesAvoided s'' = getObstaclesAvoided s' +
                    length (filter (\<lambda>ob. \<not> isAvoidedCounted ob \<and> vz (position ob) > pz + 5)
                      (filter (\<lambda>ob. \<not> vz (position ob) > pz + 50) (activeObstacles s') @ new))))
       \<and> getObstaclesAvoided (checkObstaclesPassed pz1 s') =
           getObstaclesAvoided s' + length (countedBy pz1 s')
       \<and> countedBy pz2 (checkObstaclesPassed pz1 s') =
           map oid (filter (\<lambda>ob. \<not> isAvoidedCounted ob \<and> \<not> vz (position ob) > pz1 + 5
                                  \<and> vz (position ob) > pz2 + 5) (activeObstacles s'))
       \<and> checkObstaclesPassed pz1 (checkObstaclesPassed pz1 s') = checkObstaclesPassed pz1 s'
       \<and> \<not> isAvoidedCounted (fst (createObstacle ty x z s'))"
proof -
  have mono: "getObstaclesAvoided s \<le> getObstaclesAvoided s'"
    using ObstacleManager_ticks_avoided[OF assms] by (simp add: getObstaclesAvoided_def)
  have kept: "\<forall>ob \<in> set (activeObstacles s).
             isAvoidedCounted ob \<and> (\<forall>i \<in> set ins. \<not> vz (position ob) > fst i + 50)
             \<longrightarrow> ob \<in> set (activeObstacles s')"
    using flagged_kept_ticks[OF assms] by blast
  have tick: "\<forall>pz rnd s''. ObstacleManager_update pz rnd s' = Inr s'' \<longrightarrow>
             (\<exists>new. (new = [] \<or> (\<exists>ty x. new =
                        [fst (createObstacle ty x (nextObstacleZ s')
                                (removeDistantObstacles pz (updateDifficulty pz s')))]))
                \<and> activeObstacles s'' =
                    map (\<lambda>ob. if \<not> isAvoidedCounted ob \<and> vz (position ob) > pz + 5
                              then ob\<lparr>isAvoidedCounted := True\<rparr> else ob)
                      (filter (\<lambda>ob. \<not> vz (position ob) > pz + 50) (activeObstacles s') @ new)
                \<and> getObstaclesAvoided s'' = getObstaclesAvoided s' +
                    length (filter (\<lambda>ob. \<not> isAvoidedCounted ob \<and> vz (position ob) > pz + 5)
                      (filter (\<lambda>ob. \<not> vz (position ob) > pz + 50) (activeObstacles s') @ new)))"
    using ObstacleManager_update_tick[of _ _ s']
    unfolding passedNow_def[abs_def] getObstaclesAvoided_def by blast
  have rest: "getObstaclesAvoided (checkObstaclesPassed pz1 s') =
           getObstaclesAvoided s' + length (countedBy pz1 s')
       \<and> countedBy pz2 (checkObstaclesPassed pz1 s') =
           map oid (filter (\<lambda>ob. \<not> isAvoidedCounted ob \<and> \<not> vz (position ob) > pz1 + 5
                                  \<and> vz (position ob) > pz2 + 5) (activeObstacles s'))
       \<and> checkObstaclesPassed pz1 (checkObstaclesPassed pz1 s') = checkObstaclesPassed pz1 s'
       \<and> \<not> isAvoidedCounted (fst (createObstacle ty x z s'))"
    by (simp add: getObstaclesAvoided_def checkObstaclesPassed_fields countedBy_after_check
        checkObstaclesPassed_idem createObstacle_flag)
  from mono kept tick rest show ?thesis by (intro conjI) blast+
qed

lemmas ObstacleManager_eval =
  ObstacleManager_update_def updateDifficulty_def removeDistantObstacles_def
  generateObstacle_def createObstacle_def getObstacleFromPool_def recycleObstacle_def
  checkObstaclesPassed_def obstacleTypesData_def ObstacleManager_new_def Let_def

text \<open>
  The theorem at a run: a tree is spawned at \<open>z = -100\<close> with the player at \<open>-80\<close>
  (state \<open>s1\<close>); the tick at \<open>-106\<close> counts it (state \<open>sA\<close>); the tick at \<open>-130\<close>
  leaves it as it is, flag set and not counted again; the tick at \<open>-155\<close> removes it,
  activates the same object again at \<open>z = -120\<close> and counts that activation (state
  \<open>sF\<close>).
\<close>

theorem avoided_counter_witness:
  "\<exists>s1 sA sF ob.
     ObstacleManager_ticks
       [(- 80, \<lparr>rSpawn = 0, rX = 1 / 2, rType = 0, rEscalate = 1 / 2, rSpacing = 0\<rparr>)]
       ObstacleManager_new = Inr s1
     \<and> getObstaclesAvoided ObstacleManager_new \<le> getObstaclesAvoided s1
     \<and> countedBy (- 106) s1 = [0]
     \<and> getObstaclesAvoided (checkObstaclesPassed (- 106) s1) =
         getObstaclesAvoided s1 + length (countedBy (- 106) s1)
     \<and> countedBy (- 130) (checkObstaclesPassed (- 106) s1) = []
     \<and> checkObstaclesPassed (- 106) (checkObstaclesPassed (- 106) s1) =
         checkObstaclesPassed (- 106) s1
     \<and> \<not> isAvoidedCounted (fst (createObstacle Tree 0 (- 120) s1))
     \<and> ObstacleManager_update (- 106)
          \<lparr>rSpawn = 1 / 2, rX = 1 / 2, rType = 0, rEscalate = 1 / 2, rSpacing = 0\<rparr> s1 = Inr sA
     \<and> getObstaclesAvoided s1 = 0 \<and> getObstaclesAvoided sA = 1
     \<and> ObstacleManager_ticks
          [(- 130, \<lparr>rSpawn = 1 / 2, rX = 1 / 2, rType = 0, rEscalate = 1 / 2, rSpacing = 0\<rparr>)]
          sA = Inr sA
     \<and> getObstaclesAvoided sA \<le> getObstaclesAvoided sA
     \<and> activeObstacles sA = [ob] \<and> oid ob = 0 \<and> isAvoidedCounted ob
     \<and> \<not> vz (position ob) > - 130 + 50
     \<and> ob \<in> set (activeObstacles sA)
     \<and> ObstacleManager_update (- 155)
          \<lparr>rSpawn = 0, rX = 1 / 2, rType = 0, rEscalate = 1 / 2, rSpacing = 0\<rparr> sA = Inr sF
     \<and> getObstaclesAvoided sF = 2
     \<and> (\<exists>new. (new = [] \<or> (\<exists>ty x. new =
                  [fst (createObstacle ty x (nextObstacleZ sA)
                          (removeDistantObstacles (- 155) (updateDifficulty (- 155) sA)))]))
          \<and> activeObstacles sF =
              map (\<lambda>ob. if \<not> isAvoidedCounted ob \<and> vz (position ob) > - 155 + 5
                        then ob\<lparr>isAvoidedCounted := True\<rparr> else ob)
                (filter (\<lambda>ob. \<not> vz (position ob) > - 155 + 50) (activeObstacles sA) @ new)
          \<and> getObstaclesAvoided sF = getObstaclesAvoided sA +
              length (filter (\<lambda>ob. \<not> isAvoidedCounted ob \<and> vz (position ob) > - 155 + 5)
                (filter (\<lambda>ob. \<not> vz (position ob) > - 155 + 50) (activeObstacles sA) @ new)))"
proof -
  define ob1 where "ob1 =
    \<lparr>oid = 0, otype = Tree, position = \<lparr>vx = 0, vy = 0, vz = - 100\<rparr>,
      collisionRadius = 6 / 5, damageMultiplier = 1, isAvoidedCounted = False,
      obstacleBody = Some \<lparr>vx = 0, vy = 0, vz = - 100\<rparr>\<rparr>"
  define ob where "ob = ob1\<lparr>isAvoidedCounted := True\<rparr>"
  define s1 where "s1 =
    \<lparr>activeObstacles = [ob1],
      obstaclePool = [], minDistanceBetweenObstacles = 20,
      obstacleSpawnFrequency = 1 / 4, maxObstaclesOnScreen = 22,
      obstaclesAvoided = 0, nextObstacleZ = - 120, lastPlayerZ = 0,
      obstacleSpread = 35, difficultyLevel = 1,
      obstaclesPerLevelIncrease = 10, nextOid = 1\<rparr>"
  define sA where "sA = s1\<lparr>activeObstacles := [ob], obstaclesAvoided := 1\<rparr>"
  define sF where "sF =
    \<lparr>activeObstacles =
        [\<lparr>oid = 0, otype = Tree, position = \<lparr>vx = 0, vy = 0, vz = - 120\<rparr>,
          collisionRadius = 6 / 5, damageMultiplier = 1, isAvoidedCounted = True,
          obstacleBody = Some \<lparr>vx = 0, vy = 0, vz = - 120\<rparr>\<rparr>],
      obstaclePool = [], minDistanceBetweenObstacles = 20,
      obstacleSpawnFrequency = 1 / 4, maxObstaclesOnScreen = 22,
      obstaclesAvoided = 2, nextObstacleZ = - 140, lastPlayerZ = 0,
      obstacleSpread = 35, difficultyLevel = 1,
      obstaclesPerLevelIncrease = 10, nextOid = 1\<rparr>"
  have run1: "ObstacleManager_ticks
       [(- 80, \<lparr>rSpawn = 0, rX = 1 / 2, rType = 0, rEscalate = 1 / 2, rSpacing = 0\<rparr>)]
       ObstacleManager_new = Inr s1"
    by (simp add: s1_def ob1_def ObstacleManager_eval)
  have updA: "ObstacleManager_update (- 106)
          \<lparr>rSpawn = 1 / 2, rX = 1 / 2, rType = 0, rEscalate = 1 / 2, rSpacing = 0\<rparr> s1 = Inr sA"
    by (simp add: sA_def s1_def ob_def ob1_def ObstacleManager_eval)
  have run2: "ObstacleManager_ticks
          [(- 130, \<lparr>rSpawn = 1 / 2, rX = 1 / 2, rType = 0, rEscalate = 1 / 2, rSpacing = 0\<rparr>)]
          sA = Inr sA"
    by (simp add: sA_def s1_def ob_def ob1_def ObstacleManager_eval)
  have updF: "ObstacleManager_update (- 155)
          \<lparr>rSpawn = 0, rX = 1 / 2, rType = 0, rEscalate = 1 / 2, rSpacing = 0\<rparr> sA = Inr sF"
    by (simp add: sF_def sA_def s1_def ob_def ob1_def ObstacleManager_eval)
  have vals: "countedBy (- 106) s1 = [0]" "getObstaclesAvoided s1 = 0"
    "getObstaclesAvoided sA = 1" "getObstaclesAvoided sF = 2"
    "activeObstacles sA = [ob]" "oid ob = 0" "isAvoidedCounted ob"
    "\<not> vz (position ob) > - 130 + 50"
    by (simp_all add: sF_def sA_def s1_def ob_def ob1_def countedBy_def getObstaclesAvoided_def)
  have far: "\<forall>i \<in> set [(- 130 :: real,
      \<lparr>rSpawn = 1 / 2, rX = 1 / 2, rType = 0, rEscalate = 1 / 2, rSpacing = 0 :: real\<rparr>)].
      \<not> vz (position ob) > fst i + 50"
    using vals(8) by simp
  note T1 = avoided_counter [OF run1, of "- 106" "- 130" Tree 0 "- 120"]
  note T2 = avoided_counter [OF run2, of "- 106" "- 130" Tree 0 "- 120"]
  have c1: "getObstaclesAvoided ObstacleManager_new \<le> getObstaclesAvoided s1"
    using T1 by blast
  have c2: "getObstaclesAvoided (checkObstaclesPassed (- 106) s1) =
         getObstaclesAvoided s1 + length (countedBy (- 106) s1)"
    using T1 by blast
  have c3: "countedBy (- 130) (checkObstaclesPassed (- 106) s1) = []"
  proof -
    from T1 have "countedBy (- 130) (checkObstaclesPassed (- 106) s1) =
           map oid (filter (\<lambda>ob. \<not> isAvoidedCounted ob \<and> \<not> vz (position ob) > - 106 + 5
                                  \<and> vz (position ob) > - 130 + 5) (activeObstacles s1))"
      by blast
    then show ?thesis by (simp add: s1_def ob1_def)
  qed
  have c4: "checkObstaclesPassed (- 106) (checkObstaclesPassed (- 106) s1) =
         checkObstaclesPassed (- 106) s1"
    using T1 by blast
  have c5: "\<not> isAvoidedCounted (fst (createObstacle Tree 0 (- 120) s1))"
    using T1 by blast
  have c6: "getObstaclesAvoided sA \<le> getObstaclesAvoided sA" using T2 by blast
  have c7: "ob \<in> set (activeObstacles sA)"
  proof -
    have "ob \<in> set (activeObstacles sA)" by (simp add: vals(5))
    with T2 vals(7) far show ?thesis by blast
  qed
  have c8: "\<exists>new. (new = [] \<or> (\<exists>ty x. new =
                  [fst (createObstacle ty x (nextObstacleZ sA)
                          (removeDistantObstacles (- 155) (updateDifficulty (- 155) sA)))]))
          \<and> activeObstacles sF =
              map (\<lambda>ob. if \<not> isAvoidedCounted ob \<and> vz (position ob) > - 155 + 5
                        then ob\<lparr>isAvoidedCounted := True\<rparr> else ob)
                (filter (\<lambda>ob. \<not> vz (position ob) > - 155 + 50) (activeObstacles sA) @ new)
          \<and> getObstaclesAvoided sF = getObstaclesAvoided sA +
              length (filter (\<lambda>ob. \<not> isAvoidedCounted ob \<and> vz (position ob) > - 155 + 5)
                (filter (\<lambda>ob. \<not> vz (position ob) > - 155 + 50) (activeObstacles sA) @ new))"
    using T2 updF by blast
  show ?thesis
    by (intro exI[of _ s1] exI[of _ sA] exI[of _ sF] exI[of _ ob] conjI
          run1 c1 vals c2 c3 c4 c5 updA run2 c6 c7 updF c8)
qed

text \<open>
  The claim as the specification states it: never twice for the same obstacle instance.
  One tree is spawned at \<open>z = -100\<close> (player at \<open>-80\<close>), counted when the player is at
  \<open>-106\<close>, recycled into the pool when the player is at \<open>-155\<close> and, in the same tick,
  taken out of the pool for the next spawn at \<open>z = -120\<close>, behind the player, and counted
  again. The counter is 2, and only one obstacle object was ever built.
\<close>

theorem avoided_twice_counterexample:
  "ObstacleManager_ticks
     [(- 80, \<lparr>rSpawn = 0, rX = 1 / 2, rType = 0, rEscalate = 1 / 2, rSpacing = 0\<rparr>),
      (- 106, \<lparr>rSpawn = 1 / 2, rX = 1 / 2, rType = 0, rEscalate = 1 / 2, rSpacing = 0\<rparr>),
      (- 130, \<lparr>rSpawn = 1 / 2, rX = 1 / 2, rType = 0, rEscalate = 1 / 2, rSpacing = 0\<rparr>),
      (- 155, \<lparr>rSpawn = 0, rX = 1 / 2, rType = 0, rEscalate = 1 / 2, rSpacing = 0\<rparr>)]
     ObstacleManager_new =
   Inr \<lparr>activeObstacles =
          [\<lparr>oid = 0, otype = Tree, position = \<lparr>vx = 0, vy = 0, vz = - 120\<rparr>,
            collisionRadius = 6 / 5, damageMultiplier = 1, isAvoidedCounted = True,
            obstacleBody = Some \<lparr>vx = 0, vy = 0, vz = - 120\<rparr>\<rparr>],
        obstaclePool = [], minDistanceBetweenObstacles = 20,
        obstacleSpawnFrequency = 1 / 4, maxObstaclesOnScreen = 22,
        obstaclesAvoided = 2, nextObstacleZ = - 140, lastPlayerZ = 0,
        obstacleSpread = 35, difficultyLevel = 1,
        obstaclesPerLevelIncrease = 10, nextOid = 1\<rparr>"
  by (simp add: ObstacleManager_eval)

section \<open>Binary64 rounding and the speed ramp\<close>

text \<open>
  Two checks of the rounding: \<open>round_half_even\<close> is within one half of its argument,
  and \<open>expo2 r\<close> is the exponent of the binade of \<open>r\<close>.
\<close>

lemma round_half_even_error: "\<bar>of_int (round_half_even x) - x\<bar> \<le> 1 / 2"
proof -
  have "of_int \<lfloor>x\<rfloor> \<le> x" and "x < of_int \<lfloor>x\<rfloor> + 1" by linarith+
  then show ?thesis
    unfolding round_half_even_def Let_def by (auto simp: abs_le_iff)
qed

lemma expo2_bounds:
  assumes "0 < r"
  shows "pow2 (expo2 r) \<le> r \<and> r < pow2 (expo2 r + 1)"
proof (cases "1 \<le> r")
  case True
  let ?x = "\<lfloor>r\<rfloor>"
  have x: "0 < ?x" using True by simp
  have b1: "1 \<le> bitlen ?x" using x by (simp add: bitlen_ge_iff_power)
  from bitlen_bounds[OF x] have lo: "2 ^ nat (bitlen ?x - 1) \<le> ?x" and hi: "?x < 2 ^ nat (bitlen ?x)"
    by simp_all
  have "real_of_int (2 ^ nat (bitlen ?x - 1)) \<le> of_int ?x" using lo by (simp only: of_int_le_iff)
  then have l: "(2::real) ^ nat (bitlen ?x - 1) \<le> r" by (simp add: le_floor_iff)
  have "?x + 1 \<le> 2 ^ nat (bitlen ?x)" using hi by simp
  then have "real_of_int (?x + 1) \<le> of_int (2 ^ nat (bitlen ?x))" by (simp only: of_int_le_iff)
  then have h: "r < 2 ^ nat (bitlen ?x)" by (simp add: floor_less_iff) linarith
  show ?thesis
    using True b1 l h by (simp add: expo2_def pow2_def)
next
  case False
  then have r1: "r < 1" by simp
  let ?y = "\<lceil>1 / r\<rceil> - 1"
  have "1 < 1 / r" using assms r1 by simp
  then have y: "0 < ?y" by (simp add: less_ceiling_iff)
  have b1: "1 \<le> bitlen ?y" using y by (simp add: bitlen_ge_iff_power)
  from bitlen_bounds[OF y] have lo: "2 ^ nat (bitlen ?y - 1) \<le> ?y" and hi: "?y < 2 ^ nat (bitlen ?y)"
    by simp_all
  have "?y + 1 \<le> 2 ^ nat (bitlen ?y)" using hi by simp
  then have "real_of_int (?y + 1) \<le> of_int (2 ^ nat (bitlen ?y))" by (simp only: of_int_le_iff)
  then have "real_of_int \<lceil>1 / r\<rceil> \<le> 2 ^ nat (bitlen ?y)" by simp
  moreover have "1 / r \<le> real_of_int \<lceil>1 / r\<rceil>" by (rule le_of_int_ceiling)
  ultimately have "1 / r \<le> 2 ^ nat (bitlen ?y)" by linarith
  then have l: "1 / 2 ^ nat (bitlen ?y) \<le> r"
    using assms by (simp add: field_simps)
  have "real_of_int (2 ^ nat (bitlen ?y - 1)) \<le> of_int ?y" using lo by (simp only: of_int_le_iff)
  moreover have "real_of_int ?y < 1 / r" using ceiling_correct[of "1 / r"] by simp
  ultimately have "2 ^ nat (bitlen ?y - 1) < 1 / r" by simp
  then have h: "r < 1 / 2 ^ nat (bitlen ?y - 1)"
    using assms by (simp add: field_simps)
  have e: "expo2 r = - bitlen ?y" using False by (simp add: expo2_def)
  show ?thesis
  proof (cases "bitlen ?y = 1")
    case True
    with l h e show ?thesis by (simp add: pow2_def)
  next
    case False
    with b1 have "1 < bitlen ?y" by simp
    with l h e show ?thesis by (simp add: pow2_def nat_diff_distrib)
  qed
qed

lemma bitlen_binade:
  assumes "2 ^ e \<le> x" and "x < 2 ^ Suc e"
  shows "bitlen x = int e + 1"
proof (rule antisym)
  show "bitlen x \<le> int e + 1"
    using assms(2) by (simp add: bitlen_le_iff_power nat_add_distrib)
  show "int e + 1 \<le> bitlen x"
    using assms(1) by (simp add: bitlen_ge_iff_power nat_add_distrib)
qed

lemma round_half_even_near:
  assumes "\<bar>x - of_int m\<bar> < 1 / 2"
  shows "round_half_even x = m"
proof (cases "of_int m \<le> x")
  case True
  with assms have "\<lfloor>x\<rfloor> = m" by (intro floor_unique) auto
  with assms True show ?thesis by (simp add: round_half_even_def Let_def)
next
  case False
  with assms have f: "\<lfloor>x\<rfloor> = m - 1" by (intro floor_unique) auto
  from assms False have "1 / 2 < x - of_int (m - 1)" by simp
  with f show ?thesis by (simp add: round_half_even_def Let_def)
qed

lemma rnd64_binade:
  assumes lo: "2 ^ e \<le> r" and hi: "r < 2 ^ Suc e" and e: "e \<le> 52"
  shows "rnd64 r = of_int (round_half_even (r * 2 ^ (52 - e))) / 2 ^ (52 - e)"
proof -
  have "(1::real) \<le> 2 ^ e" by simp
  with lo have one: "1 \<le> r" and pos: "0 < r" by linarith+
  have "(2::int) ^ e \<le> \<lfloor>r\<rfloor>" using lo by (simp add: le_floor_iff)
  moreover have "\<lfloor>r\<rfloor> < 2 ^ Suc e" using hi by (simp add: floor_less_iff)
  ultimately have "bitlen \<lfloor>r\<rfloor> = int e + 1" by (rule bitlen_binade)
  then have ex: "expo2 \<bar>r\<bar> = int e" using one pos by (simp add: expo2_def)
  have p: "pow2 (int e - 52) = 1 / 2 ^ (52 - e)"
    using e by (simp add: pow2_def nat_diff_distrib)
  show ?thesis
    using pos ex p by (simp add: rnd64_def Let_def)
qed


lemma rnd64_acc: "rnd64 (2 / 10) = acc64"
proof -
  have e: "expo2 \<bar>2 / 10 :: real\<bar> = - 3"
  proof -
    have "\<lceil>1 / (2 / 10 :: real)\<rceil> - 1 = 4" by simp
    moreover have "bitlen 4 = 3"
      using bitlen_binade[of 2 4] by simp
    ultimately show ?thesis by (simp add: expo2_def)
  qed
  have p: "pow2 (max (- 3) (- 1022) - 52) = 1 / 2 ^ 55" by (simp add: pow2_def)
  have r: "round_half_even (2 / 10 / (1 / 2 ^ 55)) = 7205759403792794"
    by (rule round_half_even_near) simp
  have ne: "(2 / 10 :: real) \<noteq> 0" by simp
  have "rnd64 (2 / 10) = of_int (round_half_even (2 / 10 / (1 / 2 ^ 55))) * (1 / 2 ^ 55)"
    by (simp only: rnd64_def Let_def e p if_not_P[OF ne])
  also have "\<dots> = acc64" unfolding r acc64_def by simp
  finally show ?thesis .
qed

lemma js_add_binade:
  fixes n d :: int and e :: nat
  assumes s: "s = of_int n / 2 ^ (52 - e)"
    and e: "e \<le> 52"
    and lo: "2 ^ 52 \<le> n" and hi: "n + d < 2 ^ 53"
    and c: "c = q / 2 ^ (52 - e)"
    and q: "\<bar>q - of_int d\<bar> < 1 / 2" and q0: "0 \<le> q"
  shows "js_add s c = of_int (n + d) / 2 ^ (52 - e)"
proof -
  let ?u = "(2::real) ^ (52 - e)"
  have u: "0 < ?u" by simp
  have sum: "s + c = (of_int n + q) / ?u"
    by (simp add: s c add_divide_distrib)
  have p: "(2::real) ^ 52 = 2 ^ e * ?u" "(2::real) ^ 53 = 2 ^ Suc e * ?u"
    using e by (simp_all flip: power_add)
  have "(2::real) ^ 52 \<le> of_int n"
    using lo by simp
  then have "2 ^ e * ?u \<le> of_int n + q" using q0 p by linarith
  then have lo': "2 ^ e \<le> s + c"
    unfolding sum using u by (simp add: pos_le_divide_eq)
  have "n + d + 1 \<le> 2 ^ 53" using hi by simp
  then have "real_of_int (n + d + 1) \<le> 2 ^ 53"
    by (simp only: of_int_le_numeral_power_cancel_iff)
  then have "of_int (n + d) + 1 \<le> (2::real) ^ 53" by simp
  moreover have "of_int n + q < of_int (n + d) + 1 / 2"
    using q[unfolded abs_less_iff] by simp
  ultimately have "of_int n + q < 2 ^ Suc e * ?u" using p by linarith
  then have hi': "s + c < 2 ^ Suc e"
    unfolding sum using u by (simp add: pos_divide_less_eq)
  have "round_half_even ((s + c) * ?u) = n + d"
  proof (rule round_half_even_near)
    have "(s + c) * ?u = of_int n + q" unfolding sum by simp
    then show "\<bar>(s + c) * ?u - of_int (n + d)\<bar> < 1 / 2" using q by simp
  qed
  then show ?thesis
    unfolding js_add_def by (simp add: rnd64_binade[OF lo' hi' e])
qed

lemma speedRamp64_binade:
  fixes n d :: int and e :: nat
  assumes e: "e \<le> 52"
    and c: "c = q / 2 ^ (52 - e)"
    and q: "\<bar>q - of_int d\<bar> < 1 / 2" and q0: "0 \<le> q" and d0: "0 \<le> d"
    and lo: "2 ^ 52 \<le> n" and hi: "n + int j * d < 2 ^ 53"
    and m: "of_int (n + int j * d) / 2 ^ (52 - e) \<le> M"
  shows "speedRamp64 j M c (of_int n / 2 ^ (52 - e)) = of_int (n + int j * d) / 2 ^ (52 - e)"
  using lo hi m
proof (induction j arbitrary: n)
  case 0
  then show ?case by simp
next
  case (Suc j)
  have dj: "0 \<le> int j * d" using d0 by simp
  have nd: "n + d + int j * d = n + int (Suc j) * d" by (simp add: algebra_simps)
  have hi1: "n + d < 2 ^ 53" using Suc.prems(2) dj nd by linarith
  have step: "js_add (of_int n / 2 ^ (52 - e)) c = of_int (n + d) / 2 ^ (52 - e)"
    by (rule js_add_binade[OF refl e Suc.prems(1) hi1 c q q0])
  have "n + d \<le> n + d + int j * d" using dj by simp
  then have "n + d \<le> n + int (Suc j) * d" by (simp only: nd)
  then have "real_of_int (n + d) \<le> real_of_int (n + int (Suc j) * d)"
    by (simp only: of_int_le_iff)
  then have "real_of_int (n + d) / 2 ^ (52 - e) \<le> real_of_int (n + int (Suc j) * d) / 2 ^ (52 - e)"
    by (simp add: divide_right_mono)
  with Suc.prems(3) have le: "real_of_int (n + d) / 2 ^ (52 - e) \<le> M" by linarith
  have ih: "speedRamp64 j M c (of_int (n + d) / 2 ^ (52 - e)) = of_int (n + d + int j * d) / 2 ^ (52 - e)"
  proof (rule Suc.IH)
    show "2 ^ 52 \<le> n + d" using Suc.prems(1) d0 by linarith
    show "n + d + int j * d < 2 ^ 53" using Suc.prems(2) by (simp only: nd)
    show "real_of_int (n + d + int j * d) / 2 ^ (52 - e) \<le> M" using Suc.prems(3) by (simp only: nd)
  qed
  have st: "speedStep64 M c (of_int n / 2 ^ (52 - e)) = of_int (n + d) / 2 ^ (52 - e)"
    unfolding speedStep64_def step using le by (rule min_absorb2)
  show ?case
    by (simp only: speedRamp64.simps st ih nd)
qed

lemma speedRamp64_add:
  "speedRamp64 (a + b) M c s = speedRamp64 b M c (speedRamp64 a M c s)"
  by (induction a arbitrary: s) simp_all

lemma js_add_at:
  assumes "2 ^ e \<le> s + c" and "s + c < 2 ^ Suc e" and "e \<le> 52"
    and "\<bar>(s + c) * 2 ^ (52 - e) - of_int m\<bar> < 1 / 2"
  shows "js_add s c = of_int m / 2 ^ (52 - e)"
  unfolding js_add_def rnd64_binade[OF assms(1,2,3)] round_half_even_near[OF assms(4)] ..

lemma rnd64_exact:
  assumes "2 ^ e \<le> real_of_int m / 2 ^ (52 - e)" and "real_of_int m / 2 ^ (52 - e) < 2 ^ Suc e" and "e \<le> 52"
  shows "rnd64 (of_int m / 2 ^ (52 - e)) = of_int m / 2 ^ (52 - e)"
proof -
  have "round_half_even (of_int m / 2 ^ (52 - e) * 2 ^ (52 - e)) = m"
    by (rule round_half_even_near) simp
  then show ?thesis
    by (simp only: rnd64_binade[OF assms])
qed

lemma rnd64_300: "rnd64 300 = 300"
  using rnd64_exact[of 8 "5277655813324800"] by simp

lemma rnd64_50: "rnd64 50 = 50"
  using rnd64_exact[of 5 "7036874417766400"] by simp

lemma speedRamp64_1: "speedRamp64 1 M c s = speedStep64 M c s"
  by simp

lemma seg_a: "speedRamp64 69 300 acc64 50 = 8979051757069954 / 2 ^ 47"
  using speedRamp64_binade[of 5 acc64 "3602879701896397 / 2 ^ 7" 28147497671066
      7036874417766400 69 300]
  by (simp add: acc64_def)

lemma cross_a: "speedStep64 300 acc64 (8979051757069954 / 2 ^ 47) = 4503599627370510 / 2 ^ 46"
  using js_add_at[of 6 "8979051757069954 / 2 ^ 47" acc64 4503599627370510]
  by (simp add: acc64_def speedStep64_def)


lemma seg_b: "speedRamp64 319 300 acc64 (4503599627370510 / 2 ^ 46) = 8993125505905537 / 2 ^ 46"
  using speedRamp64_binade[of 6 acc64 "3602879701896397 / 2 ^ 8" 14073748835533
      4503599627370510 319 300]
  by (simp add: acc64_def)

lemma cross_b: "speedStep64 300 acc64 (8993125505905537 / 2 ^ 46) = 4503599627370535 / 2 ^ 45"
  using js_add_at[of 7 "8993125505905537 / 2 ^ 46" acc64 4503599627370535]
  by (simp add: acc64_def speedStep64_def)

lemma seg_c: "speedRamp64 640 300 acc64 (4503599627370535 / 2 ^ 45) = 9007199254740775 / 2 ^ 45"
  using speedRamp64_binade[of 7 acc64 "3602879701896397 / 2 ^ 9" 7036874417766
      4503599627370535 640 300]
  by (simp add: acc64_def)

lemma cross_c: "speedStep64 300 acc64 (9007199254740775 / 2 ^ 45) = 4507118064579271 / 2 ^ 44"
  using js_add_at[of 8 "9007199254740775 / 2 ^ 45" acc64 4507118064579271]
  by (simp add: acc64_def speedStep64_def)

lemma seg_d: "speedRamp64 219 300 acc64 (4507118064579271 / 2 ^ 44) = 5277655813324648 / 2 ^ 44"
  using speedRamp64_binade[of 8 acc64 "3602879701896397 / 2 ^ 10" 3518437208883
      4507118064579271 219 300]
  by (simp add: acc64_def)

lemma ramp_1250: "speedRamp64 1250 300 acc64 50 = 300 - 19 / 2 ^ 41"
proof -
  have "(1250::nat) = 69 + (1 + (319 + (1 + (640 + (1 + 219)))))" by simp
  then have "speedRamp64 1250 300 acc64 50 = 5277655813324648 / 2 ^ 44"
    by (simp only: speedRamp64_add speedRamp64_1 seg_a cross_a seg_b cross_b seg_c cross_c seg_d)
  also have "\<dots> = 300 - 19 / 2 ^ 41" by simp
  finally show ?thesis .
qed

lemma step_clamp: "speedStep64 300 acc64 (300 - 19 / 2 ^ 41) = 300"
proof -
  have "js_add (of_int 5277655813324648 / 2 ^ (52 - 8)) acc64
      = of_int (5277655813324648 + 3518437208883) / 2 ^ (52 - 8)"
    by (rule js_add_binade[OF refl, where q = "3602879701896397 / 2 ^ 10"])
       (simp_all add: acc64_def)
  then have "js_add (300 - 19 / 2 ^ 41) acc64 = 5281174250533531 / 2 ^ 44" by simp
  then show ?thesis by (simp add: speedStep64_def)
qed

lemma step_stay: "speedStep64 300 acc64 300 = 300"
proof -
  have "js_add (of_int 5277655813324800 / 2 ^ (52 - 8)) acc64
      = of_int (5277655813324800 + 3518437208883) / 2 ^ (52 - 8)"
    by (rule js_add_binade[OF refl, where q = "3602879701896397 / 2 ^ 10"])
       (simp_all add: acc64_def)
  then have "js_add 300 acc64 = 5281174250533683 / 2 ^ 44" by simp
  then show ?thesis by (simp add: speedStep64_def)
qed

lemma ramp_stay: "speedRamp64 k 300 acc64 300 = 300"
  by (induction k) (simp_all add: step_stay)

lemma ramp_from_1251: "1251 \<le> n \<Longrightarrow> speedRamp64 n 300 acc64 50 = 300"
proof -
  assume "1251 \<le> n"
  then obtain k where "n = 1251 + k" by (auto simp: le_iff_add)
  then have n: "n = 1250 + (1 + k)" by simp
  show ?thesis
    unfolding n by (simp only: speedRamp64_add speedRamp64_1 ramp_1250 step_clamp ramp_stay)
qed

lemma speedStep64_le: "speedStep64 M c s \<le> M"
  by (simp add: speedStep64_def)

lemma speedRamp64_le: "s \<le> M \<Longrightarrow> speedRamp64 n M c s \<le> M"
  by (induction n arbitrary: s) (simp_all add: speedStep64_le)

lemma Player_speed64_reset:
  "Player_speed64 n (Player_reset Player_new) = speedRamp64 n 300 acc64 50"
proof -
  have f: "maxSpeed (Player_reset Player_new) = 300"
    "acceleration (Player_reset Player_new) = 2 / 10"
    "speed (Player_reset Player_new) = 50"
    by (simp_all add: Player_reset_def Player_new_def)
  show ?thesis
    by (simp only: Player_speed64_def f rnd64_300 rnd64_50 rnd64_acc)
qed

lemma Player_update_alive:
  assumes "\<not> isDead s" and "onSlope env"
  shows "speed (Player_update dt env rs s) = min (maxSpeed s) (speed s + acceleration s)"
    and "\<not> isDead (Player_update dt env rs s)"
    and "maxSpeed (Player_update dt env rs s) = maxSpeed s"
    and "acceleration (Player_update dt env rs s) = acceleration s"
  using assms
  by (simp_all add: Player_update_def applyControls_def updatePhysics_def
        checkTerrainCollision_def onSlope_def Let_def)

lemma Player_updates_speed:
  assumes "\<not> isDead s" and "\<forall>i \<in> set ins. onSlope (fst (snd i))"
    and "0 \<le> acceleration s" and "speed s \<le> maxSpeed s"
  shows "speed (Player_updates ins s) =
           min (maxSpeed s) (speed s + real (length ins) * acceleration s)"
  using assms
proof (induction ins arbitrary: s)
  case Nil
  then show ?case by simp
next
  case (Cons a ins)
  obtain dt env rs where a: "a = (dt, env, rs)" by (cases a)
  let ?s1 = "Player_update dt env rs s"
  have env: "onSlope env" using Cons.prems(2) a by simp
  note u = Player_update_alive[OF Cons.prems(1) env, of dt rs]
  have "speed (Player_updates ins ?s1) =
          min (maxSpeed ?s1) (speed ?s1 + real (length ins) * acceleration ?s1)"
  proof (rule Cons.IH)
    show "\<not> isDead ?s1" by (rule u(2))
    show "\<forall>i \<in> set ins. onSlope (fst (snd i))" using Cons.prems(2) by simp
    show "0 \<le> acceleration ?s1" using Cons.prems(3) u(4) by simp
    show "speed ?s1 \<le> maxSpeed ?s1" unfolding u by simp
  qed
  also have "\<dots> = min (maxSpeed s)
       (min (maxSpeed s) (speed s + acceleration s) + real (length ins) * acceleration s)"
    by (simp only: u)
  also have "\<dots> = min (maxSpeed s) (speed s + real (length (a # ins)) * acceleration s)"
  proof -
    have "0 \<le> real (length ins) * acceleration s" using Cons.prems(3) by simp
    then show ?thesis by (simp add: min_def algebra_simps)
  qed
  finally show ?case by (simp add: a)
qed

lemma Player_reset_new:
  "\<not> isDead (Player_reset Player_new)" "acceleration (Player_reset Player_new) = 2 / 10"
  "speed (Player_reset Player_new) = 50" "maxSpeed (Player_reset Player_new) = 300"
  by (simp_all add: Player_reset_def Player_new_def)

text \<open>
  Claim C9, as the code has it. From the speed 50 that \<open>reset\<close> sets, with the
  acceleration \<open>0.2\<close> and the maximum 300, 1250 updates of a living player give the
  speed 300 in exact arithmetic, and \<open>300 - 19 / 2^41 = 299.99999999999136\<close> in the
  binary64 arithmetic in which the code runs: the 1250 rounded additions of the binary64
  value of \<open>0.2\<close> fall short of 300. The speed never exceeds 300, and from the 1251st
  update on the clamp makes it exactly 300.
\<close>

theorem speed_ramp_1250:
  assumes "length ins = 1250" and "\<forall>i \<in> set ins. onSlope (fst (snd i))" and "1251 \<le> n"
  shows "Player_speed64 1250 (Player_reset Player_new) = 300 - 19 / 2 ^ 41
       \<and> Player_speed64 n (Player_reset Player_new) = 300
       \<and> Player_speed64 m (Player_reset Player_new) \<le> 300
       \<and> speed (Player_updates ins (Player_reset Player_new)) = 300"
proof -
  have "speed (Player_updates ins (Player_reset Player_new)) =
     min (maxSpeed (Player_reset Player_new))
       (speed (Player_reset Player_new) + real (length ins) * acceleration (Player_reset Player_new))"
    by (rule Player_updates_speed) (simp_all add: Player_reset_new assms(2))
  then have "speed (Player_updates ins (Player_reset Player_new)) = 300"
    by (simp add: Player_reset_new assms(1))
  moreover have "speedRamp64 m 300 acc64 50 \<le> 300"
    by (rule speedRamp64_le) simp
  ultimately show ?thesis
    using assms(3) by (simp add: Player_speed64_reset ramp_1250 ramp_from_1251)
qed

theorem speed_ramp_1250_witness:
  "length (replicate 1250
       (1 / 60 :: real, \<lparr>bodyPosition = \<lparr>vx = 0, vy = 5, vz = 0\<rparr>, rayHasHit = True, rayDistance = 1 / 2\<rparr>,
        always (1 / 2 :: real))) = 1250
   \<and> onSlope \<lparr>bodyPosition = \<lparr>vx = 0, vy = 5, vz = 0\<rparr>, rayHasHit = True, rayDistance = 1 / 2\<rparr>
   \<and> (1251 :: nat) \<le> 1251
   \<and> Player_speed64 1250 (Player_reset Player_new) = 300 - 19 / 2 ^ 41
   \<and> Player_speed64 1251 (Player_reset Player_new) = 300
   \<and> Player_speed64 7 (Player_reset Player_new) \<le> 300
   \<and> speed (Player_updates
        (replicate 1250
          (1 / 60, \<lparr>bodyPosition = \<lparr>vx = 0, vy = 5, vz = 0\<rparr>, rayHasHit = True, rayDistance = 1 / 2\<rparr>,
           always (1 / 2)))
        (Player_reset Player_new)) = 300"
proof -
  let ?env = "\<lparr>bodyPosition = \<lparr>vx = 0, vy = 5, vz = 0\<rparr>, rayHasHit = True, rayDistance = 1 / 2\<rparr>"
  let ?ins = "replicate 1250 (1 / 60 :: real, ?env, always (1 / 2 :: real))"
  have len: "length ?ins = 1250" by simp
  have on: "onSlope ?env" by (simp add: onSlope_def)
  then have all: "\<forall>i \<in> set ?ins. onSlope (fst (snd i))" by simp
  have n: "(1251 :: nat) \<le> 1251" by simp
  from speed_ramp_1250 [OF len all n, of 7] len on n show ?thesis
    by blast
qed

text \<open>
  The claim as the specification states it: exactly 300 after 1250 updates. In binary64
  the speed is then \<open>300 - 19 / 2^41\<close>.
\<close>

theorem speed_ramp_counterexample:
  "Player_speed64 1250 (Player_reset Player_new) = 300 - 19 / 2 ^ 41
   \<and> Player_speed64 1250 (Player_reset Player_new) \<noteq> 300"
  by (simp add: Player_speed64_reset ramp_1250)

end
